theory Spec2Isabelle
  imports Main "HOL-Library.Sublist"
begin

section \<open>The package downloader of edi (\<^verbatim>\<open>edi/lib/debhelpers.py\<close>)\<close>

text \<open>
  The class \<^verbatim>\<open>PackageDownloader\<close> fetches one binary package from a Debian style
  repository: it reads the release file, checks its signature, looks the package up in
  the package index files and downloads the payload. The embedding below follows the
  methods of the class one by one. Byte strings and text are both \<open>string\<close>.

  Everything the class reaches outside itself is a field of the record \<open>env\<close>: the HTTP
  server (\<^verbatim>\<open>requests.get\<close>, as status code and body), gpg (\<^verbatim>\<open>run\<close>, as its standard
  output), \<^verbatim>\<open>hashlib\<close>, the helpers \<^verbatim>\<open>fetch_repository_key\<close>, \<^verbatim>\<open>build_keyring\<close> and
  \<^verbatim>\<open>decompress\<close>, and the two deb822 parsers. \<^verbatim>\<open>requests.get\<close> raises when the network
  fails (no connection, no name, a timeout); the class has no handler, so the exception
  ends the call. A helper that fails is \<open>None\<close>.
\<close>

subsection \<open>Errors\<close>

text \<open>
  One constructor for each call of \<^verbatim>\<open>print_error_and_exit\<close> and for each Python exception
  that an expression of the class itself can raise. The names of the first group are the
  error kinds of the specification; the message of the source is given beside each.
\<close>

datatype error =
    InvalidRepositorySpec string
      \<comment> \<open>\<^verbatim>\<open>Missing argument 'repository'.\<close> and \<^verbatim>\<open>Missing (non empty) list 'architectures'.\<close>\<close>
  | MissingPackageName
      \<comment> \<open>\<^verbatim>\<open>Missing argument package_name!\<close>\<close>
  | RepositoryUnreachable string
      \<comment> \<open>\<^verbatim>\<open>Unable to fetch archive element '{0}'.\<close>\<close>
  | SignatureVerificationFailed
      \<comment> \<open>\<^verbatim>\<open>Signature check failed!\<close>\<close>
  | NoChecksumSection
      \<comment> \<open>\<^verbatim>\<open>Neither SHA512 nor SHA256 section found in release file.\<close>\<close>
  | ChecksumMismatch
      \<comment> \<open>\<^verbatim>\<open>Checksum mismatch on repository item.\<close>\<close>
  | PackageNotFound string
      \<comment> \<open>\<^verbatim>\<open>Package {} not found.\<close>\<close>
  | PackageNameParseError string
      \<comment> \<open>\<^verbatim>\<open>Error parsing package name string {}.\<close>\<close>
  | RequestException string
      \<comment> \<open>raised by \<^verbatim>\<open>requests.get\<close>, with the URL\<close>
  | NameError string
  | KeyError string
  | AttributeError
  | StopIteration
  | HelperFailed string

text \<open>
  Modelled from the spec: \<^verbatim>\<open>print_error_and_exit\<close> of \<^verbatim>\<open>edi.lib.helpers\<close> is not among the
  sources; the specification calls it a global print-and-terminate helper, so a call of
  it ends the running method with the error it names.
\<close>

definition print_error_and_exit :: "error \<Rightarrow> error + 'a" where
  "print_error_and_exit e = Inl e"

subsection \<open>Strings\<close>

definition newline :: char where
  "newline = CHR 0x0A"

definition slash :: char where
  "slash = CHR ''/''"

text \<open>\<^verbatim>\<open>str.lower\<close> on the letters A to Z; every other character stays.\<close>

definition lower_char :: "char \<Rightarrow> char" where
  "lower_char c =
     (case map_of (zip ''ABCDEFGHIJKLMNOPQRSTUVWXYZ'' ''abcdefghijklmnopqrstuvwxyz'') c of
        Some l \<Rightarrow> l
      | None \<Rightarrow> c)"

definition lower :: "string \<Rightarrow> string" where
  "lower s = map lower_char s"

text \<open>\<^verbatim>\<open>s.rstrip('/')\<close>\<close>

definition rstrip_slash :: "string \<Rightarrow> string" where
  "rstrip_slash s = rev (dropWhile (\<lambda>c. c = slash) (rev s))"

text \<open>\<^verbatim>\<open>s.replace('/', '_')\<close>\<close>

definition replace_slash :: "string \<Rightarrow> string" where
  "replace_slash s = map (\<lambda>c. if c = slash then CHR ''_'' else c) s"

text \<open>\<^verbatim>\<open>s.startswith(p)\<close>\<close>

definition startswith :: "string \<Rightarrow> string \<Rightarrow> bool" where
  "startswith s p = (take (length p) s = p)"

text \<open>\<^verbatim>\<open>os.path.join(a, b)\<close> of \<^verbatim>\<open>posixpath\<close>, and \<^verbatim>\<open>os.path.basename\<close>.\<close>

definition path_join :: "string \<Rightarrow> string \<Rightarrow> string" where
  "path_join a b =
     (if startswith b [slash] then b
      else if a = [] \<or> last a = slash then a @ b
      else a @ [slash] @ b)"

definition basename :: "string \<Rightarrow> string" where
  "basename p = rev (takeWhile (\<lambda>c. c \<noteq> slash) (rev p))"

subsection \<open>Mappings\<close>

text \<open>
  The rows of a checksum section and the paragraphs of a package index are mappings from
  field names to strings, read with \<^verbatim>\<open>get\<close> and with \<^verbatim>\<open>[]\<close>. A plain Python \<^verbatim>\<open>dict\<close>
  compares keys as they are; the mapping type of the deb822 library ignores their case.
  Both are kept, so that nothing below depends on which of the two the parser hands out.
\<close>

datatype item = Dict "(string \<times> string) list" | Deb822Dict "(string \<times> string) list"

fun get :: "item \<Rightarrow> string \<Rightarrow> string option" where
  "get (Dict kvs) k = map_of kvs k"
| "get (Deb822Dict kvs) k = map_of (map (\<lambda>(k', v). (lower k', v)) kvs) (lower k)"

fun item_len :: "item \<Rightarrow> nat" where
  "item_len (Dict kvs) = length kvs"
| "item_len (Deb822Dict kvs) = length kvs"

text \<open>Python truthiness of an optional string: \<^verbatim>\<open>None\<close> and the empty string are false.\<close>

fun truthy :: "string option \<Rightarrow> bool" where
  "truthy None = False"
| "truthy (Some s) = (s \<noteq> [])"

text \<open>
  The first paragraph of a release file: its multi-valued fields, each a list of rows.
  Field names are looked up without regard to case, as deb822 does.
\<close>

type_synonym release = "(string \<times> item list) list"

definition release_get :: "release \<Rightarrow> string \<Rightarrow> item list option" where
  "release_get r k = map_of (map (\<lambda>(k', v). (lower k', v)) r) (lower k)"

subsection \<open>The world outside the class\<close>

text \<open>
  A call \<^verbatim>\<open>requests.get(url)\<close> either raises or returns a response: \<open>get_raises\<close> says
  which, and \<open>http_get\<close> is the status code and the body of the response.
\<close>

record env =
  get_raises :: "string \<Rightarrow> bool"
  http_get :: "string \<Rightarrow> nat \<times> string"
  fetch_repository_key :: "string \<Rightarrow> string option"
  build_keyring :: "string \<Rightarrow> string option"
  run_gpg :: "string \<Rightarrow> string \<Rightarrow> string option \<Rightarrow> string"
  hashlib :: "string \<Rightarrow> string \<Rightarrow> string"
  decompress :: "string \<Rightarrow> string option"
  parse_release :: "string \<Rightarrow> release list"
  parse_packages :: "string \<Rightarrow> item list"

text \<open>
  What a call leaves behind: the URLs it asked the server for, in order, and the files
  outside its temporary directory. The temporary directory is private to one call of
  \<^verbatim>\<open>download\<close> and removed when the call ends; the files written there are read back
  unchanged, so their contents are passed on as values.
\<close>

record state =
  requests :: "string list"
  files :: "string \<rightharpoonup> string"

subsection \<open>The constructor\<close>

record source_entry =
  uri :: string
  dist :: string
  comps :: "string list"

record downloader =
  repository :: string
  repository_key :: "string option"
  architectures :: "string list"
  source :: source_entry

definition compressions :: "string list" where
  "compressions = [''gz'', ''bz2'', ''xz'']"

definition checksum_algorithms :: "string list" where
  "checksum_algorithms = [''SHA512'', ''SHA256'']"

text \<open>
  \<^verbatim>\<open>__init__\<close>. The arguments default to \<^verbatim>\<open>None\<close>. \<^verbatim>\<open>SourceEntry\<close> belongs to the
  aptsources library and is the parameter \<open>SourceEntry\<close> here.
\<close>

definition PackageDownloader_init ::
  "(string \<Rightarrow> source_entry) \<Rightarrow> string option \<Rightarrow> string option \<Rightarrow> string list option
     \<Rightarrow> error + downloader" where
  "PackageDownloader_init SourceEntry repo key archs =
     (if \<not> truthy repo
      then print_error_and_exit (InvalidRepositorySpec ''Missing argument 'repository'.'')
      else if archs = None \<or> archs = Some []
      then print_error_and_exit
             (InvalidRepositorySpec ''Missing (non empty) list 'architectures'.'')
      else
        let src = SourceEntry (the repo) in
        Inr \<lparr> repository = the repo,
              repository_key = key,
              architectures = the archs,
              source = src \<lparr> uri := rstrip_slash (uri src) \<rparr> \<rparr>)"

text \<open>
  A reading of one source line, for running the constructor on concrete lines: the line
  is cut at blanks into type, URI, distribution and components, and a line of fewer than
  three words gives the entry with empty fields. aptsources marks such a line invalid and
  raises nothing.
\<close>

fun words_acc :: "string \<Rightarrow> string \<Rightarrow> string list" where
  "words_acc w [] = (if w = [] then [] else [w])"
| "words_acc w (c # cs) =
     (if c = CHR '' '' then (if w = [] then words_acc [] cs else w # words_acc [] cs)
      else words_acc (w @ [c]) cs)"

definition words :: "string \<Rightarrow> string list" where
  "words line = words_acc [] line"

definition words_source_entry :: "string \<Rightarrow> source_entry" where
  "words_source_entry line =
     (case words line of
        t # u # d # cs \<Rightarrow> \<lparr> uri = u, dist = d, comps = cs \<rparr>
      | _ \<Rightarrow> \<lparr> uri = [], dist = [], comps = [] \<rparr>)"

subsection \<open>Fetching\<close>

text \<open>
  \<^verbatim>\<open>_fetch_archive_element(url, check)\<close>, the static method that the class ends up with;
  \<^verbatim>\<open>_try_fetch_archive_element\<close> is the call with \<^verbatim>\<open>check=False\<close>. The result \<open>None\<close> is
  Python's \<^verbatim>\<open>None\<close>.
\<close>

definition fetch_archive_element ::
  "env \<Rightarrow> string \<Rightarrow> bool \<Rightarrow> state \<Rightarrow> (error + string option) \<times> state" where
  "fetch_archive_element e url check s =
     (let s' = s \<lparr> requests := requests s @ [url] \<rparr> in
      if get_raises e url then (Inl (RequestException url), s')
      else if fst (http_get e url) \<noteq> 200
      then (if check then (print_error_and_exit (RepositoryUnreachable url), s')
            else (Inr None, s'))
      else (Inr (Some (snd (http_get e url))), s'))"

definition try_fetch_archive_element ::
  "env \<Rightarrow> string \<Rightarrow> state \<Rightarrow> (error + string option) \<times> state" where
  "try_fetch_archive_element e url s = fetch_archive_element e url False s"

subsection \<open>The release file\<close>

text \<open>\<^verbatim>\<open>packages_filter\<close> of \<^verbatim>\<open>_parse_release_file\<close>.\<close>

definition packages_filter :: "downloader \<Rightarrow> string list" where
  "packages_filter self =
     [component @ ''/binary-'' @ architecture @ ''/Packages.'' @ compression.
        component \<leftarrow> comps (source self),
        architecture \<leftarrow> architectures self,
        compression \<leftarrow> compressions]"

definition in_packages_filter :: "downloader \<Rightarrow> item \<Rightarrow> bool" where
  "in_packages_filter self element =
     (case get element ''name'' of
        None \<Rightarrow> False
      | Some n \<Rightarrow> n \<in> set (packages_filter self))"

text \<open>
  \<^verbatim>\<open>_parse_release_file\<close>, on the first paragraph of the file. A section that is missing
  and a section without rows are both false for \<^verbatim>\<open>not section\<close>.
\<close>

definition section_truthy :: "item list option \<Rightarrow> bool" where
  "section_truthy sec = (case sec of None \<Rightarrow> False | Some rows \<Rightarrow> rows \<noteq> [])"

definition select_section :: "release \<Rightarrow> error + item list" where
  "select_section main_content =
     (let section = release_get main_content ''SHA512'';
          section = (if \<not> section_truthy section
                     then release_get main_content ''SHA256'' else section)
      in if \<not> section_truthy section then print_error_and_exit NoChecksumSection
         else Inr (the section))"

definition parse_release_file :: "env \<Rightarrow> downloader \<Rightarrow> string \<Rightarrow> error + item list" where
  "parse_release_file e self release_data =
     (case parse_release e release_data of
        [] \<Rightarrow> Inl StopIteration
      | main_content # _ \<Rightarrow>
          (case select_section main_content of
             Inl err \<Rightarrow> Inl err
           | Inr section \<Rightarrow> Inr (filter (in_packages_filter self) section)))"

subsection \<open>The signature\<close>

text \<open>
  \<^verbatim>\<open>re.search('^\[GNUPG:\] GOODSIG', output.stdout, re.MULTILINE)\<close>: the marker at the
  start of the text or right after a line feed.
\<close>

fun after_newline :: "string \<Rightarrow> string \<Rightarrow> bool" where
  "after_newline pat [] = False"
| "after_newline pat (c # cs) = ((c = newline \<and> startswith cs pat) \<or> after_newline pat cs)"

definition search_line_start :: "string \<Rightarrow> string \<Rightarrow> bool" where
  "search_line_start pat out = (startswith out pat \<or> after_newline pat out)"

definition goodsig :: "string \<Rightarrow> bool" where
  "goodsig out = search_line_start ''[GNUPG:] GOODSIG'' out"

definition validsig :: "string \<Rightarrow> bool" where
  "validsig out = search_line_start ''[GNUPG:] VALIDSIG'' out"

text \<open>
  \<^verbatim>\<open>_verify_signature\<close>. gpg is given the keyring, the signed file and, when there is
  one, the detached signature; \<^verbatim>\<open>run\<close> is called with \<^verbatim>\<open>check=False\<close>, so only the text
  that gpg prints decides.
\<close>

definition verify_signature :: "env \<Rightarrow> string \<Rightarrow> string \<Rightarrow> string option \<Rightarrow> bool" where
  "verify_signature e keyring signed_file detached_signature =
     (let out = run_gpg e keyring signed_file detached_signature
      in goodsig out \<and> validsig out)"

subsection \<open>Checksums\<close>

text \<open>
  \<^verbatim>\<open>_verify_checksum\<close>: the loop over \<^verbatim>\<open>self._checksum_algorithms\<close>. When the loop ends
  without a checksum, the argument of the last \<^verbatim>\<open>print_error_and_exit\<close> is evaluated first;
  it reads \<^verbatim>\<open>package_item\<close>, a name that is bound nowhere.
\<close>

fun verify_checksum_loop :: "env \<Rightarrow> string \<Rightarrow> item \<Rightarrow> string list \<Rightarrow> error + unit" where
  "verify_checksum_loop e data it [] = Inl (NameError ''package_item'')"
| "verify_checksum_loop e data it (algorithm # algorithms) =
     (let checksum = get it algorithm;
          checksum = (if \<not> truthy checksum then get it (lower algorithm) else checksum)
      in if truthy checksum
         then (if hashlib e (lower algorithm) data \<noteq> the checksum
               then print_error_and_exit ChecksumMismatch
               else Inr ())
         else verify_checksum_loop e data it algorithms)"

definition verify_checksum :: "env \<Rightarrow> string \<Rightarrow> item \<Rightarrow> error + unit" where
  "verify_checksum e data it = verify_checksum_loop e data it checksum_algorithms"

subsection \<open>The package index files\<close>

text \<open>
  \<^verbatim>\<open>re.match('^(.*)Packages\.*([a-z2]{1,3})$', name)\<close>, as its first group. The dot of a
  Python pattern matches every character but the line feed, both stars are greedy, and
  \<^verbatim>\<open>$\<close> stands at the end of the text or before a line feed that ends it. \<open>packages_tail\<close>
  is the part of the pattern after the first group.
\<close>

definition az2 :: "char \<Rightarrow> bool" where
  "az2 c = (c \<in> set ''abcdefghijklmnopqrstuvwxyz2'')"

definition packages_tail :: "string \<Rightarrow> bool" where
  "packages_tail s =
     (startswith s ''Packages'' \<and>
      (let r = dropWhile (\<lambda>c. c = CHR ''.'') (drop 8 s);
           g = takeWhile az2 r;
           t = dropWhile az2 r
       in 1 \<le> length g \<and> length g \<le> 3 \<and> (t = [] \<or> t = [newline])))"

fun match_package_file :: "string \<Rightarrow> string option" where
  "match_package_file [] = (if packages_tail [] then Some [] else None)"
| "match_package_file (c # cs) =
     (if c = newline then (if packages_tail (c # cs) then Some [] else None)
      else (case match_package_file cs of
              Some g \<Rightarrow> Some (c # g)
            | None \<Rightarrow> if packages_tail (c # cs) then Some [] else None))"

text \<open>The paragraphs of one index, in the order of the file, up to the first match.\<close>

fun scan_paragraphs :: "string \<Rightarrow> item list \<Rightarrow> error + item option" where
  "scan_paragraphs package_name [] = Inr None"
| "scan_paragraphs package_name (section # sections) =
     (case get section ''Package'' of
        None \<Rightarrow> Inl (KeyError ''Package'')
      | Some p \<Rightarrow> if p = package_name then Inr (Some section)
                  else scan_paragraphs package_name sections)"

definition package_url :: "downloader \<Rightarrow> string \<Rightarrow> string" where
  "package_url self name =
     uri (source self) @ ''/dists/'' @ dist (source self) @ ''/'' @ name"

text \<open>
  \<^verbatim>\<open>_find_package_in_package_files\<close>: the loop, with \<^verbatim>\<open>downloaded_package_prefix\<close> as
  the argument \<open>downloaded\<close>. The loop hands back the list as it stands when the loop
  ends, beside the result of the method, so that one run can be followed by another.
\<close>

fun find_loop ::
  "env \<Rightarrow> downloader \<Rightarrow> string \<Rightarrow> item list \<Rightarrow> string list \<Rightarrow> state
     \<Rightarrow> (error + item option) \<times> string list \<times> state" where
  "find_loop e self package_name [] downloaded s = (Inr None, downloaded, s)"
| "find_loop e self package_name (package_file # package_files) downloaded s =
     (case get package_file ''name'' of
        None \<Rightarrow> (Inl (KeyError ''name''), downloaded, s)
      | Some name \<Rightarrow>
     (case match_package_file name of
        None \<Rightarrow> (print_error_and_exit (PackageNameParseError name), downloaded, s)
      | Some group1 \<Rightarrow>
          let prefix = replace_slash group1 in
          if prefix \<in> set downloaded
          then find_loop e self package_name package_files downloaded s
          else
            (case try_fetch_archive_element e (package_url self name) s of
               (Inl err, s') \<Rightarrow> (Inl err, downloaded, s')
             | (Inr package_file_data, s') \<Rightarrow>
                 if truthy package_file_data
                 then
                   (case verify_checksum e (the package_file_data) package_file of
                      Inl err \<Rightarrow> (Inl err, downloaded, s')
                    | Inr _ \<Rightarrow>
                   (case decompress e (the package_file_data) of
                      None \<Rightarrow> (Inl (HelperFailed ''decompress''), downloaded @ [prefix], s')
                    | Some decompressed_package_data \<Rightarrow>
                   (case scan_paragraphs package_name
                           (parse_packages e decompressed_package_data) of
                      Inl err \<Rightarrow> (Inl err, downloaded @ [prefix], s')
                    | Inr (Some section) \<Rightarrow> (Inr (Some section), downloaded @ [prefix], s')
                    | Inr None \<Rightarrow>
                        find_loop e self package_name package_files
                          (downloaded @ [prefix]) s')))
                 else find_loop e self package_name package_files downloaded s')))"

definition find_package_in_package_files ::
  "env \<Rightarrow> downloader \<Rightarrow> string \<Rightarrow> item list \<Rightarrow> state \<Rightarrow> (error + item option) \<times> state" where
  "find_package_in_package_files e self package_name package_files s =
     (case find_loop e self package_name package_files [] s of
        (r, downloaded, s') \<Rightarrow> (r, s'))"

subsection \<open>The payload\<close>

text \<open>
  \<^verbatim>\<open>re.match('.*/(.*deb)', full_name).group(1)\<close>. \<open>upto_last_deb\<close> works on the reversed
  text and gives the longest start of a text that ends in \<^verbatim>\<open>deb\<close>; \<open>match_deb_line\<close> takes
  the last slash after which there is such a start. Only the first line of the text can
  match, for the dot stops at a line feed.
\<close>

fun upto_last_deb_rev :: "string \<Rightarrow> string option" where
  "upto_last_deb_rev [] = None"
| "upto_last_deb_rev (c # cs) =
     (if startswith (c # cs) ''bed'' then Some (c # cs) else upto_last_deb_rev cs)"

definition upto_last_deb :: "string \<Rightarrow> string option" where
  "upto_last_deb s = map_option rev (upto_last_deb_rev (rev s))"

fun match_deb_line :: "string \<Rightarrow> string option" where
  "match_deb_line [] = None"
| "match_deb_line (c # cs) =
     (case match_deb_line cs of
        Some g \<Rightarrow> Some g
      | None \<Rightarrow> if c = slash then upto_last_deb cs else None)"

definition match_deb :: "string \<Rightarrow> string option" where
  "match_deb full_name = match_deb_line (takeWhile (\<lambda>c. c \<noteq> newline) full_name)"

text \<open>
  \<^verbatim>\<open>_download_package\<close>. \<^verbatim>\<open>package['Filename']\<close> raises \<^verbatim>\<open>KeyError\<close> on a paragraph
  without the field, and \<^verbatim>\<open>.group(1)\<close> on the \<^verbatim>\<open>None\<close> of a failed match raises
  \<^verbatim>\<open>AttributeError\<close>.
\<close>

definition download_package ::
  "env \<Rightarrow> downloader \<Rightarrow> item \<Rightarrow> string \<Rightarrow> state \<Rightarrow> (error + string) \<times> state" where
  "download_package e self package dest s =
     (case get package ''Filename'' of
        None \<Rightarrow> (Inl (KeyError ''Filename''), s)
      | Some full_name \<Rightarrow>
     (case match_deb full_name of
        None \<Rightarrow> (Inl AttributeError, s)
      | Some package_name \<Rightarrow>
     (case fetch_archive_element e (uri (source self) @ ''/'' @ full_name) True s of
        (Inl err, s') \<Rightarrow> (Inl err, s')
      | (Inr package_data, s') \<Rightarrow>
     (case verify_checksum e (the package_data) package of
        Inl err \<Rightarrow> (Inl err, s')
      | Inr _ \<Rightarrow>
          let package_file = path_join dest package_name in
          (Inr package_file,
           s' \<lparr> files := (files s')(package_file \<mapsto> the package_data) \<rparr>)))))"

subsection \<open>\<^verbatim>\<open>download\<close>\<close>

definition key_configured :: "downloader \<Rightarrow> bool" where
  "key_configured self = truthy (repository_key self)"

definition base_url :: "downloader \<Rightarrow> string" where
  "base_url self = uri (source self) @ ''/dists/'' @ dist (source self)"

text \<open>
  Lines 179 to 197 of \<^verbatim>\<open>download\<close>: the release file and, on the \<^verbatim>\<open>Release\<close> path with
  a key, the detached signature. The second component of the result is the content of
  the file that \<^verbatim>\<open>signature_file\<close> names when gpg runs, \<open>None\<close> when \<^verbatim>\<open>signature_file\<close> is
  \<^verbatim>\<open>None\<close>.
\<close>

definition fetch_release ::
  "env \<Rightarrow> downloader \<Rightarrow> state \<Rightarrow> (error + string \<times> string option) \<times> state" where
  "fetch_release e self s =
     (case try_fetch_archive_element e (base_url self @ ''/InRelease'') s of
        (Inl err, s1) \<Rightarrow> (Inl err, s1)
      | (Inr inrelease_data, s1) \<Rightarrow>
          if truthy inrelease_data then (Inr (the inrelease_data, None), s1)
          else
            (case fetch_archive_element e (base_url self @ ''/Release'') True s1 of
               (Inl err, s2) \<Rightarrow> (Inl err, s2)
             | (Inr release_data, s2) \<Rightarrow>
                 if key_configured self
                 then
                   (case fetch_archive_element e (base_url self @ ''/Release.gpg'') True s2 of
                      (Inl err, s3) \<Rightarrow> (Inl err, s3)
                    | (Inr signature_data, s3) \<Rightarrow>
                        (Inr (the release_data, signature_data), s3))
                 else (Inr (the release_data, None), s2)))"

text \<open>Lines 199 to 206: the signature check, made when a key is configured.\<close>

definition check_trust ::
  "env \<Rightarrow> downloader \<Rightarrow> string \<Rightarrow> string option \<Rightarrow> error + unit" where
  "check_trust e self release_data signature_data =
     (if key_configured self
      then
        (case fetch_repository_key e (the (repository_key self)) of
           None \<Rightarrow> Inl (HelperFailed ''fetch_repository_key'')
         | Some key_data \<Rightarrow>
        (case build_keyring e key_data of
           None \<Rightarrow> Inl (HelperFailed ''build_keyring'')
         | Some keyring \<Rightarrow>
             if \<not> verify_signature e keyring release_data signature_data
             then print_error_and_exit SignatureVerificationFailed
             else Inr ()))
      else Inr ())"

text \<open>Lines 208 to 214: the index files and the payload.\<close>

definition falsy_package :: "item option \<Rightarrow> bool" where
  "falsy_package requested_package =
     (case requested_package of None \<Rightarrow> True | Some p \<Rightarrow> item_len p = 0)"

definition locate_and_download ::
  "env \<Rightarrow> downloader \<Rightarrow> string \<Rightarrow> string \<Rightarrow> string \<Rightarrow> state \<Rightarrow> (error + string) \<times> state" where
  "locate_and_download e self package_name dest release_data s =
     (case parse_release_file e self release_data of
        Inl err \<Rightarrow> (Inl err, s)
      | Inr package_files \<Rightarrow>
     (case find_package_in_package_files e self package_name package_files s of
        (Inl err, s') \<Rightarrow> (Inl err, s')
      | (Inr requested_package, s') \<Rightarrow>
          if falsy_package requested_package
          then (print_error_and_exit (PackageNotFound package_name), s')
          else download_package e self (the requested_package) dest s'))"

text \<open>
  \<^verbatim>\<open>download\<close>. A missing \<^verbatim>\<open>package_name\<close> (\<^verbatim>\<open>None\<close>, the default) and the empty name take
  the same branch; both are the empty string here.
\<close>

definition download ::
  "env \<Rightarrow> downloader \<Rightarrow> string \<Rightarrow> string \<Rightarrow> state \<Rightarrow> (error + string) \<times> state" where
  "download e self package_name dest s =
     (if package_name = [] then (print_error_and_exit MissingPackageName, s)
      else
        (case fetch_release e self s of
           (Inl err, s1) \<Rightarrow> (Inl err, s1)
         | (Inr (release_data, signature_data), s1) \<Rightarrow>
        (case check_trust e self release_data signature_data of
           Inl err \<Rightarrow> (Inl err, s1)
         | Inr _ \<Rightarrow> locate_and_download e self package_name dest release_data s1)))"

section \<open>Notions used in the statements\<close>

text \<open>
  The checksum that the loop of \<^verbatim>\<open>_verify_checksum\<close> arrives at for an item, with the
  name of the hash function it is compared under: the algorithms in their order, each
  under its upper case name first.
\<close>

definition recorded_checksum :: "item \<Rightarrow> (string \<times> string) option" where
  "recorded_checksum it =
     (if truthy (get it ''SHA512'') then Some (''sha512'', the (get it ''SHA512''))
      else if truthy (get it ''sha512'') then Some (''sha512'', the (get it ''sha512''))
      else if truthy (get it ''SHA256'') then Some (''sha256'', the (get it ''SHA256''))
      else if truthy (get it ''sha256'') then Some (''sha256'', the (get it ''sha256''))
      else None)"

text \<open>
  For one row of the checksum section: the prefix under which the loop of
  \<^verbatim>\<open>_find_package_in_package_files\<close> files it, the URL it is fetched from, and the body
  the server has for it when the loop takes the fetch for a success (a response with
  status 200 and a body that is not empty).
\<close>

definition candidate_prefix :: "item \<Rightarrow> string option" where
  "candidate_prefix package_file =
     (case get package_file ''name'' of
        None \<Rightarrow> None
      | Some name \<Rightarrow> map_option replace_slash (match_package_file name))"

definition candidate_url :: "downloader \<Rightarrow> item \<Rightarrow> string" where
  "candidate_url self package_file = package_url self (the (get package_file ''name''))"

definition fetched_body :: "env \<Rightarrow> downloader \<Rightarrow> item \<Rightarrow> string option" where
  "fetched_body e self package_file =
     (let url = candidate_url self package_file
      in if \<not> get_raises e url \<and> fst (http_get e url) = 200 \<and> snd (http_get e url) \<noteq> []
         then Some (snd (http_get e url)) else None)"

text \<open>
  A row for which the server answers, but with a status other than 200 or with an empty
  body: the loop passes such a row over.
\<close>

definition unavailable :: "env \<Rightarrow> downloader \<Rightarrow> item \<Rightarrow> bool" where
  "unavailable e self package_file =
     (let url = candidate_url self package_file
      in \<not> get_raises e url \<and> (fst (http_get e url) \<noteq> 200 \<or> snd (http_get e url) = []))"

text \<open>
  A row whose index file was fetched, passed its checksum, was decompressed and holds no
  paragraph of the wanted package.
\<close>

definition scanned_without_match :: "env \<Rightarrow> downloader \<Rightarrow> string \<Rightarrow> item \<Rightarrow> bool" where
  "scanned_without_match e self package_name package_file =
     (case fetched_body e self package_file of
        None \<Rightarrow> False
      | Some body \<Rightarrow>
          verify_checksum e body package_file = Inr () \<and>
          (case decompress e body of
             None \<Rightarrow> False
           | Some d \<Rightarrow> scan_paragraphs package_name (parse_packages e d) = Inr None))"

text \<open>
  What the pattern \<^verbatim>\<open>^marker\<close> with \<^verbatim>\<open>re.MULTILINE\<close> looks for: the marker at the start of
  the text or right after a line feed, whatever comes before and after.
\<close>

definition marker_at_line_start :: "string \<Rightarrow> string \<Rightarrow> bool" where
  "marker_at_line_start marker out =
     (\<exists>pre post. out = pre @ marker @ post \<and> (pre = [] \<or> last pre = newline))"

section \<open>A small repository\<close>

text \<open>
  A world to run the model in: a network that does not fail, a server given by a table
  from URLs to bodies (every other URL is answered with 404), a gpg with a fixed output,
  a hash function that writes the name of the algorithm before the data, helpers that
  hand their argument on, a release file of one paragraph, and index files given by a
  table from their text to their paragraphs.
\<close>

definition toy_hash :: "string \<Rightarrow> string \<Rightarrow> string" where
  "toy_hash algorithm data = algorithm @ '':'' @ data"

definition world ::
  "(string \<times> string) list \<Rightarrow> string \<Rightarrow> release \<Rightarrow> (string \<times> item list) list \<Rightarrow> env" where
  "world server gpg_output main_content indices =
     \<lparr> get_raises = (\<lambda>url. False),
       http_get = (\<lambda>url. case map_of server url of Some body \<Rightarrow> (200, body) | None \<Rightarrow> (404, [])),
       fetch_repository_key = Some,
       build_keyring = Some,
       run_gpg = (\<lambda>keyring signed_file detached_signature. gpg_output),
       hashlib = toy_hash,
       decompress = Some,
       parse_release = (\<lambda>data. [main_content]),
       parse_packages = (\<lambda>data. case map_of indices data of Some ps \<Rightarrow> ps | None \<Rightarrow> []) \<rparr>"

definition demo :: "string option \<Rightarrow> downloader" where
  "demo key =
     \<lparr> repository = ''deb http://r d main'',
       repository_key = key,
       architectures = [''amd64''],
       source = \<lparr> uri = ''http://r'', dist = ''d'', comps = [''main''] \<rparr> \<rparr>"

definition row :: "string \<Rightarrow> string \<Rightarrow> item" where
  "row digest name = Deb822Dict [(''sha256'', digest), (''size'', ''2''), (''name'', name)]"

definition control_entry :: "string \<Rightarrow> string \<Rightarrow> string \<Rightarrow> item" where
  "control_entry name filename digest =
     Deb822Dict [(''Package'', name), (''Filename'', filename), (''SHA256'', digest)]"

definition gz :: string where
  "gz = ''main/binary-amd64/Packages.gz''"

definition xz :: string where
  "xz = ''main/binary-amd64/Packages.xz''"

definition good_gpg :: string where
  "good_gpg = ''[GNUPG:] GOODSIG 1 r'' @ [newline] @ ''[GNUPG:] VALIDSIG 1'' @ [newline]"

definition bad_gpg :: string where
  "bad_gpg = ''[GNUPG:] BADSIG 1 r'' @ [newline]"

definition start :: state where
  "start = \<lparr> requests = [], files = Map.empty \<rparr>"

definition second_index :: env where
  "second_index =
     world [(''http://r/dists/d/InRelease'', ''REL''),
            (''http://r/dists/d/main/binary-amd64/Packages.xz'', ''XZ''),
            (''http://r/pool/curl_1_amd64.deb'', ''DEB'')]
       good_gpg
       [(''SHA256'', [row ''sha256:GZ'' gz, row ''sha256:XZ'' xz])]
       [(''XZ'', [control_entry ''bash'' ''pool/bash_5_amd64.deb'' ''sha256:BASH'',
                  control_entry ''curl'' ''pool/curl_1_amd64.deb'' ''sha256:DEB'',
                  control_entry ''curl'' ''pool/curl_2_amd64.deb'' ''sha256:DEB2''])]"

definition release_only :: env where
  "release_only =
     world [(''http://r/dists/d/Release'', ''REL'')] good_gpg
       [(''SHA256'', [row ''sha256:GZ'' gz])] []"

definition both_sections :: release where
  "both_sections =
     [(''SHA256'', [row ''sha256:GZ'' gz]),
      (''SHA512'', [Deb822Dict [(''sha512'', ''sha512:GZ''), (''size'', ''2''), (''name'', gz)],
                    Deb822Dict [(''sha512'', ''sha512:S''), (''size'', ''1''),
                                (''name'', ''main/source/Sources.gz'')]])]"

definition one_index :: "string \<Rightarrow> string \<Rightarrow> env" where
  "one_index filename payload =
     world [(''http://r/dists/d/InRelease'', ''REL''),
            (''http://r/dists/d/main/binary-amd64/Packages.gz'', ''GZ''),
            (''http://r/'' @ filename, payload)]
       good_gpg
       [(''SHA256'', [row ''sha256:GZ'' gz])]
       [(''GZ'', [control_entry ''curl'' filename ''sha256:DEB''])]"

definition signed_repository :: "string \<Rightarrow> env" where
  "signed_repository gpg_output =
     world [(''http://r/dists/d/InRelease'', ''REL''),
            (''http://r/dists/d/main/binary-amd64/Packages.gz'', ''GZ''),
            (''http://r/pool/curl_1_amd64.deb'', ''DEB'')]
       gpg_output
       [(''SHA256'', [row ''sha256:GZ'' gz])]
       [(''GZ'', [control_entry ''curl'' ''pool/curl_1_amd64.deb'' ''sha256:DEB''])]"

text \<open>
  Two more worlds: one where the request for \<^verbatim>\<open>InRelease\<close> finds no network while the
  server has a \<^verbatim>\<open>Release\<close> file, and one whose \<^verbatim>\<open>Release\<close> file is empty and has no
  paragraph.
\<close>

definition inrelease_down :: env where
  "inrelease_down =
     \<lparr> get_raises = (\<lambda>url. url = ''http://r/dists/d/InRelease''),
       http_get = (\<lambda>url. if url = ''http://r/dists/d/Release'' then (200, ''REL'') else (404, [])),
       fetch_repository_key = Some,
       build_keyring = Some,
       run_gpg = (\<lambda>keyring signed_file detached_signature. good_gpg),
       hashlib = toy_hash,
       decompress = Some,
       parse_release = (\<lambda>data. [[(''SHA256'', [row ''sha256:GZ'' gz])]]),
       parse_packages = (\<lambda>data. []) \<rparr>"

definition empty_release :: env where
  "empty_release =
     \<lparr> get_raises = (\<lambda>url. False),
       http_get = (\<lambda>url. if url = ''http://r/dists/d/Release'' then (200, []) else (404, [])),
       fetch_repository_key = Some,
       build_keyring = Some,
       run_gpg = (\<lambda>keyring signed_file detached_signature. good_gpg),
       hashlib = toy_hash,
       decompress = Some,
       parse_release = (\<lambda>data. []),
       parse_packages = (\<lambda>data. []) \<rparr>"

section \<open>Properties\<close>

subsection \<open>Auxiliary facts\<close>

lemma lower_SHA512: "lower ''SHA512'' = ''sha512''"
  by (simp add: lower_def lower_char_def)

lemma lower_SHA256: "lower ''SHA256'' = ''sha256''"
  by (simp add: lower_def lower_char_def)

lemma verify_checksum_recorded:
  "verify_checksum e data it =
     (case recorded_checksum it of
        None \<Rightarrow> Inl (NameError ''package_item'')
      | Some (alg, c) \<Rightarrow> if hashlib e alg data \<noteq> c then Inl ChecksumMismatch else Inr ())"
  by (simp add: verify_checksum_def checksum_algorithms_def recorded_checksum_def
      lower_SHA512 lower_SHA256 print_error_and_exit_def Let_def)

lemma fetch_release_closed:
  "fetch_release e self s =
     (let inrelease = base_url self @ ''/InRelease'';
          release = base_url self @ ''/Release'';
          gpg = base_url self @ ''/Release.gpg''
      in if get_raises e inrelease
         then (Inl (RequestException inrelease), s \<lparr> requests := requests s @ [inrelease] \<rparr>)
         else if fst (http_get e inrelease) = 200 \<and> snd (http_get e inrelease) \<noteq> []
         then (Inr (snd (http_get e inrelease), None), s \<lparr> requests := requests s @ [inrelease] \<rparr>)
         else if get_raises e release
         then (Inl (RequestException release),
               s \<lparr> requests := requests s @ [inrelease, release] \<rparr>)
         else if fst (http_get e release) \<noteq> 200
         then (Inl (RepositoryUnreachable release),
               s \<lparr> requests := requests s @ [inrelease, release] \<rparr>)
         else if \<not> key_configured self
         then (Inr (snd (http_get e release), None),
               s \<lparr> requests := requests s @ [inrelease, release] \<rparr>)
         else if get_raises e gpg
         then (Inl (RequestException gpg),
               s \<lparr> requests := requests s @ [inrelease, release, gpg] \<rparr>)
         else if fst (http_get e gpg) \<noteq> 200
         then (Inl (RepositoryUnreachable gpg),
               s \<lparr> requests := requests s @ [inrelease, release, gpg] \<rparr>)
         else (Inr (snd (http_get e release), Some (snd (http_get e gpg))),
               s \<lparr> requests := requests s @ [inrelease, release, gpg] \<rparr>))"
  by (simp add: fetch_release_def try_fetch_archive_element_def fetch_archive_element_def
      print_error_and_exit_def Let_def)

lemma fetch_release_files: "fetch_release e self s = (r, s1) \<Longrightarrow> files s1 = files s"
  by (auto simp add: fetch_release_closed Let_def split: if_splits)

lemma download_stages:
  "package_name \<noteq> [] \<Longrightarrow> fetch_release e self s = (Inr (release_data, signature_data), s1) \<Longrightarrow>
   download e self package_name dest s =
     (case check_trust e self release_data signature_data of
        Inl err \<Rightarrow> (Inl err, s1)
      | Inr u \<Rightarrow> locate_and_download e self package_name dest release_data s1)"
  by (simp add: download_def)

lemma find_loop_Cons:
  "find_loop e self n (pf # pfs) dl s =
     (case get pf ''name'' of
        None \<Rightarrow> (Inl (KeyError ''name''), dl, s)
      | Some nm \<Rightarrow>
     (case candidate_prefix pf of
        None \<Rightarrow> (Inl (PackageNameParseError nm), dl, s)
      | Some p \<Rightarrow>
          if p \<in> set dl then find_loop e self n pfs dl s
          else
            (case fetched_body e self pf of
               None \<Rightarrow>
                 if get_raises e (candidate_url self pf)
                 then (Inl (RequestException (candidate_url self pf)), dl,
                       s \<lparr> requests := requests s @ [candidate_url self pf] \<rparr>)
                 else find_loop e self n pfs dl
                        (s \<lparr> requests := requests s @ [candidate_url self pf] \<rparr>)
             | Some body \<Rightarrow>
            (case verify_checksum e body pf of
               Inl err \<Rightarrow> (Inl err, dl, s \<lparr> requests := requests s @ [candidate_url self pf] \<rparr>)
             | Inr u \<Rightarrow>
            (case decompress e body of
               None \<Rightarrow> (Inl (HelperFailed ''decompress''), dl @ [p],
                         s \<lparr> requests := requests s @ [candidate_url self pf] \<rparr>)
             | Some d \<Rightarrow>
            (case scan_paragraphs n (parse_packages e d) of
               Inl err \<Rightarrow> (Inl err, dl @ [p], s \<lparr> requests := requests s @ [candidate_url self pf] \<rparr>)
             | Inr (Some sec) \<Rightarrow>
                 (Inr (Some sec), dl @ [p], s \<lparr> requests := requests s @ [candidate_url self pf] \<rparr>)
             | Inr None \<Rightarrow>
                 find_loop e self n pfs (dl @ [p])
                   (s \<lparr> requests := requests s @ [candidate_url self pf] \<rparr>)))))))"
  by (simp add: candidate_prefix_def candidate_url_def fetched_body_def
      try_fetch_archive_element_def fetch_archive_element_def print_error_and_exit_def Let_def
      split: option.splits sum.splits)

declare find_loop.simps(2) [simp del]

lemma find_loop_append:
  "find_loop e self n (pre @ post) dl s =
     (case find_loop e self n pre dl s of
        (Inr None, dl', s') \<Rightarrow> find_loop e self n post dl' s'
      | other \<Rightarrow> other)"
proof (induction pre arbitrary: dl s)
  case Nil
  show ?case by simp
next
  case (Cons pf pre)
  show ?case
    unfolding append_Cons find_loop_Cons
    by (simp add: Cons.IH split: option.splits sum.splits)
qed

lemma find_loop_files:
  "find_loop e self n pfs dl s = (r, dl', s') \<Longrightarrow> files s' = files s"
proof (induction pfs arbitrary: dl s)
  case Nil
  then show ?case by simp
next
  case (Cons pf pfs)
  from Cons.prems show ?case
    unfolding find_loop_Cons
    by (auto split: option.splits sum.splits if_splits dest!: Cons.IH)
qed

lemma find_loop_requests:
  "find_loop e self n pfs dl s = (r, dl', s') \<Longrightarrow>
   \<exists>tried. subseq tried pfs \<and> requests s' = requests s @ map (candidate_url self) tried"
proof (induction pfs arbitrary: dl s)
  case Nil
  then show ?case by auto
next
  case (Cons pf pfs)
  let ?s1 = "s \<lparr> requests := requests s @ [candidate_url self pf] \<rparr>"
  have now: "subseq [pf] (pf # pfs)" by simp
  have skip: "\<exists>tried. subseq tried (pf # pfs) \<and> requests s' = requests s @ map (candidate_url self) tried"
    if "find_loop e self n pfs d s = (r, dl', s')" for d
  proof -
    from Cons.IH [OF that] obtain tried where "subseq tried pfs"
      and "requests s' = requests s @ map (candidate_url self) tried" by blast
    then show ?thesis by (meson subseq_Cons2' list_emb_Cons)
  qed
  have take: "\<exists>tried. subseq tried (pf # pfs) \<and> requests s' = requests s @ map (candidate_url self) tried"
    if "find_loop e self n pfs d ?s1 = (r, dl', s')" for d
  proof -
    from Cons.IH [OF that] obtain tried where t: "subseq tried pfs"
      and "requests s' = requests ?s1 @ map (candidate_url self) tried" by blast
    then have "requests s' = requests s @ map (candidate_url self) (pf # tried)" by simp
    moreover have "subseq (pf # tried) (pf # pfs)" using t by simp
    ultimately show ?thesis by blast
  qed
  have stop: "\<exists>tried. subseq tried (pf # pfs) \<and> requests ?s1 = requests s @ map (candidate_url self) tried"
    by (rule exI [of _ "[pf]"]) simp
  have none: "\<exists>tried. subseq tried (pf # pfs) \<and> requests s = requests s @ map (candidate_url self) tried"
    by (rule exI [of _ "[]"]) simp
  from Cons.prems show ?case
    unfolding find_loop_Cons
    by (auto split: option.splits sum.splits if_splits intro: skip take stop none)
qed


lemma find_loop_skip:
  "p \<in> set dl \<Longrightarrow>
   find_loop e self n pfs dl s =
     find_loop e self n (filter (\<lambda>x. candidate_prefix x \<noteq> Some p) pfs) dl s"
proof (induction pfs arbitrary: dl s)
  case Nil
  show ?case by simp
next
  case (Cons pf pfs)
  have ih: "find_loop e self n pfs d t =
      find_loop e self n (filter (\<lambda>x. candidate_prefix x \<noteq> Some p) pfs) d t"
    if "p \<in> set d" for d t
    using that by (rule Cons.IH)
  show ?case
  proof (cases "candidate_prefix pf = Some p")
    case True
    then have "get pf ''name'' \<noteq> None"
      by (auto simp add: candidate_prefix_def split: option.splits)
    with True Cons.prems show ?thesis
      by (auto simp add: find_loop_Cons ih split: option.splits)
  next
    case False
    with Cons.prems show ?thesis
      by (simp add: find_loop_Cons ih split: option.splits sum.splits)
  qed
qed

lemma scan_paragraphs_None:
  "scan_paragraphs n ps = Inr None \<longleftrightarrow>
     (\<forall>x \<in> set ps. \<exists>p. get x ''Package'' = Some p \<and> p \<noteq> n)"
  by (induction ps) (auto split: option.splits)

lemma scan_paragraphs_first:
  "\<forall>x \<in> set before. \<exists>p. get x ''Package'' = Some p \<and> p \<noteq> n \<Longrightarrow>
   get sec ''Package'' = Some n \<Longrightarrow>
   scan_paragraphs n (before @ sec # after) = Inr (Some sec)"
  by (induction before) auto

lemma scan_paragraphs_Some:
  "scan_paragraphs n ps = Inr (Some sec) \<Longrightarrow>
   \<exists>before after. ps = before @ sec # after \<and> get sec ''Package'' = Some n \<and>
     (\<forall>x \<in> set before. \<exists>p. get x ''Package'' = Some p \<and> p \<noteq> n)"
proof (induction ps)
  case Nil
  then show ?case by simp
next
  case (Cons a ps)
  show ?case
  proof (cases "get a ''Package'' = Some n")
    case True
    with Cons.prems have "sec = a" by simp
    with True show ?thesis by (intro exI [of _ "[]"] exI [of _ ps]) simp
  next
    case False
    with Cons.prems obtain p where p: "get a ''Package'' = Some p" "p \<noteq> n"
      and "scan_paragraphs n ps = Inr (Some sec)"
      by (auto split: option.splits if_splits)
    from Cons.IH [OF this(3)] obtain before after where
      "ps = before @ sec # after" "get sec ''Package'' = Some n"
      "\<forall>x \<in> set before. \<exists>p. get x ''Package'' = Some p \<and> p \<noteq> n" by blast
    with p show ?thesis
      by (intro exI [of _ "a # before"] exI [of _ after]) simp
  qed
qed

lemma scan_paragraphs_len:
  "scan_paragraphs n ps = Inr (Some sec) \<Longrightarrow> item_len sec \<noteq> 0"
proof -
  assume "scan_paragraphs n ps = Inr (Some sec)"
  then have "get sec ''Package'' = Some n" by (blast dest: scan_paragraphs_Some)
  then show ?thesis by (cases sec) auto
qed


lemma find_loop_requests_mono:
  "find_loop e self n pfs dl s = (r, dl', s') \<Longrightarrow> set (requests s) \<subseteq> set (requests s')"
  by (auto dest!: find_loop_requests)

lemma find_loop_None_Cons:
  assumes "find_loop e self n (pf # pfs) dl s = (Inr None, dl', s')"
  obtains p where "candidate_prefix pf = Some p" "p \<in> set dl"
      "find_loop e self n pfs dl s = (Inr None, dl', s')"
  | p where "candidate_prefix pf = Some p" "p \<notin> set dl" "unavailable e self pf"
      "find_loop e self n pfs dl (s \<lparr> requests := requests s @ [candidate_url self pf] \<rparr>)
         = (Inr None, dl', s')"
  | p where "candidate_prefix pf = Some p" "p \<notin> set dl" "scanned_without_match e self n pf"
      "find_loop e self n pfs (dl @ [p]) (s \<lparr> requests := requests s @ [candidate_url self pf] \<rparr>)
         = (Inr None, dl', s')"
  using assms unfolding find_loop_Cons scanned_without_match_def
  by (auto simp add: unavailable_def fetched_body_def Let_def
      split: option.splits sum.splits if_splits)


lemma find_loop_exhausted:
  "find_loop e self n pfs dl s = (Inr None, dl', s') \<Longrightarrow>
   set dl \<subseteq> set dl' \<and>
   (\<forall>p \<in> set dl'. p \<in> set dl \<or>
      (\<exists>pf \<in> set pfs. candidate_prefix pf = Some p \<and> scanned_without_match e self n pf \<and>
         candidate_url self pf \<in> set (requests s'))) \<and>
   (\<forall>pf \<in> set pfs.
      (\<exists>p. candidate_prefix pf = Some p \<and> p \<in> set dl') \<or>
      (unavailable e self pf \<and> candidate_url self pf \<in> set (requests s')))"
proof (induction pfs arbitrary: dl s)
  case Nil
  then show ?case by simp
next
  case (Cons pf pfs)
  let ?s1 = "s \<lparr> requests := requests s @ [candidate_url self pf] \<rparr>"
  let ?Q = "\<lambda>x. scanned_without_match e self n x \<and> candidate_url self x \<in> set (requests s')"
  let ?U = "\<lambda>x. unavailable e self x \<and> candidate_url self x \<in> set (requests s')"
  from Cons.prems show ?case
  proof (cases rule: find_loop_None_Cons)
    case (1 p)
    from Cons.IH [OF 1(3)] have
      a: "set dl \<subseteq> set dl'" and
      b: "\<And>q. q \<in> set dl' \<Longrightarrow> q \<in> set dl \<or> (\<exists>x \<in> set pfs. candidate_prefix x = Some q \<and> ?Q x)" and
      c: "\<And>x. x \<in> set pfs \<Longrightarrow> (\<exists>q. candidate_prefix x = Some q \<and> q \<in> set dl') \<or> ?U x"
      by blast+
    have c0: "(\<exists>q. candidate_prefix pf = Some q \<and> q \<in> set dl') \<or> ?U pf"
      using 1(1,2) a by blast
    have b': "q \<in> set dl \<or> (\<exists>x \<in> set (pf # pfs). candidate_prefix x = Some q \<and> ?Q x)"
      if "q \<in> set dl'" for q using b [OF that] by auto
    have c': "(\<exists>q. candidate_prefix x = Some q \<and> q \<in> set dl') \<or> ?U x"
      if "x \<in> set (pf # pfs)" for x using that c c0 by auto
    from a b' c' show ?thesis by blast
  next
    case (2 p)
    from find_loop_requests_mono [OF 2(4)] have url: "candidate_url self pf \<in> set (requests s')"
      by auto
    from Cons.IH [OF 2(4)] have
      a: "set dl \<subseteq> set dl'" and
      b: "\<And>q. q \<in> set dl' \<Longrightarrow> q \<in> set dl \<or> (\<exists>x \<in> set pfs. candidate_prefix x = Some q \<and> ?Q x)" and
      c: "\<And>x. x \<in> set pfs \<Longrightarrow> (\<exists>q. candidate_prefix x = Some q \<and> q \<in> set dl') \<or> ?U x"
      by blast+
    have c0: "(\<exists>q. candidate_prefix pf = Some q \<and> q \<in> set dl') \<or> ?U pf"
      using 2(3) url by blast
    have b': "q \<in> set dl \<or> (\<exists>x \<in> set (pf # pfs). candidate_prefix x = Some q \<and> ?Q x)"
      if "q \<in> set dl'" for q using b [OF that] by auto
    have c': "(\<exists>q. candidate_prefix x = Some q \<and> q \<in> set dl') \<or> ?U x"
      if "x \<in> set (pf # pfs)" for x using that c c0 by auto
    from a b' c' show ?thesis by blast
  next
    case (3 p)
    from find_loop_requests_mono [OF 3(4)] have url: "candidate_url self pf \<in> set (requests s')"
      by auto
    from Cons.IH [OF 3(4)] have
      a1: "set (dl @ [p]) \<subseteq> set dl'" and
      b: "\<And>q. q \<in> set dl' \<Longrightarrow>
            q \<in> set (dl @ [p]) \<or> (\<exists>x \<in> set pfs. candidate_prefix x = Some q \<and> ?Q x)" and
      c: "\<And>x. x \<in> set pfs \<Longrightarrow> (\<exists>q. candidate_prefix x = Some q \<and> q \<in> set dl') \<or> ?U x"
      by blast+
    from a1 have a: "set dl \<subseteq> set dl'" and pin: "p \<in> set dl'" by auto
    have c0: "(\<exists>q. candidate_prefix pf = Some q \<and> q \<in> set dl') \<or> ?U pf"
      using 3(1) pin by blast
    have b': "q \<in> set dl \<or> (\<exists>x \<in> set (pf # pfs). candidate_prefix x = Some q \<and> ?Q x)"
      if "q \<in> set dl'" for q
    proof (cases "q = p")
      case True
      with 3(1,3) url show ?thesis by auto
    next
      case False
      with b [OF that] show ?thesis by auto
    qed
    have c': "(\<exists>q. candidate_prefix x = Some q \<and> q \<in> set dl') \<or> ?U x"
      if "x \<in> set (pf # pfs)" for x using that c c0 by auto
    from a b' c' show ?thesis by blast
  qed
qed


lemma find_package_exhausted:
  assumes "find_package_in_package_files e self n pfs s = (Inr None, s')"
  shows "\<forall>pf \<in> set pfs.
      (unavailable e self pf \<and> candidate_url self pf \<in> set (requests s')) \<or>
      (\<exists>x \<in> set pfs. candidate_prefix x = candidate_prefix pf \<and>
         scanned_without_match e self n x \<and> candidate_url self x \<in> set (requests s'))"
proof
  fix pf assume pf: "pf \<in> set pfs"
  from assms obtain dl' where run: "find_loop e self n pfs [] s = (Inr None, dl', s')"
    by (auto simp add: find_package_in_package_files_def split: prod.splits)
  from find_loop_exhausted [OF run] have
    b: "\<And>p. p \<in> set dl' \<Longrightarrow>
      (\<exists>x \<in> set pfs. candidate_prefix x = Some p \<and> scanned_without_match e self n x \<and>
         candidate_url self x \<in> set (requests s'))" and
    c: "\<And>x. x \<in> set pfs \<Longrightarrow>
      (\<exists>p. candidate_prefix x = Some p \<and> p \<in> set dl') \<or>
      (unavailable e self x \<and> candidate_url self x \<in> set (requests s'))"
    by auto
  from c [OF pf] show "(unavailable e self pf \<and> candidate_url self pf \<in> set (requests s')) \<or>
      (\<exists>x \<in> set pfs. candidate_prefix x = candidate_prefix pf \<and>
         scanned_without_match e self n x \<and> candidate_url self x \<in> set (requests s'))"
  proof
    assume "\<exists>p. candidate_prefix pf = Some p \<and> p \<in> set dl'"
    then obtain p where p: "candidate_prefix pf = Some p" "p \<in> set dl'" by blast
    from b [OF p(2)] p(1) show ?thesis by auto
  next
    assume "unavailable e self pf \<and> candidate_url self pf \<in> set (requests s')"
    then show ?thesis by simp
  qed
qed

lemma verify_checksum_errors:
  "verify_checksum e data it = Inl err \<Longrightarrow>
   err = ChecksumMismatch \<or> err = NameError ''package_item''"
  by (auto simp add: verify_checksum_recorded split: option.splits if_splits)

lemma scan_paragraphs_errors:
  "scan_paragraphs n ps = Inl err \<Longrightarrow> err = KeyError ''Package''"
  by (induction ps) (auto split: option.splits if_splits)

lemma find_loop_not_PackageNotFound:
  "find_loop e self n pfs dl s = (Inl (PackageNotFound m), dl', s') \<Longrightarrow> False"
proof (induction pfs arbitrary: dl s)
  case Nil
  then show ?case by auto
next
  case (Cons pf pfs)
  from Cons.prems show ?case
    unfolding find_loop_Cons
    by (auto split: option.splits sum.splits if_splits
        dest: Cons.IH verify_checksum_errors scan_paragraphs_errors)
qed

lemma find_loop_Some_len:
  "find_loop e self n pfs dl s = (Inr (Some sec), dl', s') \<Longrightarrow> item_len sec \<noteq> 0"
proof (induction pfs arbitrary: dl s)
  case Nil
  then show ?case by auto
next
  case (Cons pf pfs)
  from Cons.prems show ?case
    unfolding find_loop_Cons
    by (auto split: option.splits sum.splits if_splits
        dest: Cons.IH scan_paragraphs_len)
qed

lemma download_package_errors:
  "download_package e self pkg dest s = (Inl err, s') \<Longrightarrow> err \<noteq> PackageNotFound m"
  by (auto simp add: download_package_def fetch_archive_element_def print_error_and_exit_def
      Let_def split: option.splits sum.splits if_splits prod.splits
      dest: verify_checksum_errors)

lemma parse_release_file_errors:
  "parse_release_file e self rd = Inl err \<Longrightarrow> err = StopIteration \<or> err = NoChecksumSection"
  by (auto simp add: parse_release_file_def select_section_def print_error_and_exit_def Let_def
      split: list.splits sum.splits if_splits)

lemma not_found_only_from_loop:
  assumes "locate_and_download e self n dest rd s = (Inl (PackageNotFound m), s')"
  shows "m = n \<and> (\<exists>pfs. parse_release_file e self rd = Inr pfs \<and>
           find_package_in_package_files e self n pfs s = (Inr None, s'))"
proof -
  from assms obtain pfs where pfs: "parse_release_file e self rd = Inr pfs"
    by (auto simp add: locate_and_download_def split: sum.splits
        dest: parse_release_file_errors)
  obtain r dl' s1 where run: "find_loop e self n pfs [] s = (r, dl', s1)"
    by (cases "find_loop e self n pfs [] s") auto
  have r1: "\<And>k. r \<noteq> Inl (PackageNotFound k)"
    using run by (auto dest: find_loop_not_PackageNotFound)
  have r2: "\<And>sec. r = Inr (Some sec) \<Longrightarrow> item_len sec \<noteq> 0"
    using run by (auto dest: find_loop_Some_len)
  have fp: "find_package_in_package_files e self n pfs s = (r, s1)"
    using run by (simp add: find_package_in_package_files_def)
  show ?thesis
  proof (cases r)
    case (Inl err)
    with assms pfs fp r1 show ?thesis by (auto simp add: locate_and_download_def)
  next
    case (Inr found)
    show ?thesis
    proof (cases found)
      case None
      with Inr assms pfs fp show ?thesis
        by (auto simp add: locate_and_download_def falsy_package_def print_error_and_exit_def)
    next
      case (Some sec)
      with Inr r2 have "item_len sec \<noteq> 0" by simp
      with Some Inr assms pfs fp show ?thesis
        by (auto simp add: locate_and_download_def falsy_package_def
            dest: download_package_errors)
    qed
  qed
qed

lemma find_loop_hit:
  assumes pre: "find_loop e self n pre dl0 s = (Inr None, dl, s1)"
    and p: "candidate_prefix pf = Some p" "p \<notin> set dl"
    and body: "fetched_body e self pf = Some body"
    and ok: "verify_checksum e body pf = Inr ()" "decompress e body = Some d"
    and doc: "parse_packages e d = before @ sec # after" "get sec ''Package'' = Some n"
      "\<forall>x \<in> set before. \<exists>q. get x ''Package'' = Some q \<and> q \<noteq> n"
  shows "find_loop e self n (pre @ pf # post) dl0 s =
     (Inr (Some sec), dl @ [p], s1 \<lparr> requests := requests s1 @ [candidate_url self pf] \<rparr>)"
proof -
  from p(1) obtain nm where nm: "get pf ''name'' = Some nm"
    by (auto simp add: candidate_prefix_def split: option.splits)
  have scan: "scan_paragraphs n (parse_packages e d) = Inr (Some sec)"
    unfolding doc(1) using doc(3) doc(2) by (rule scan_paragraphs_first)
  have "find_loop e self n (pf # post) dl s1 =
     (Inr (Some sec), dl @ [p], s1 \<lparr> requests := requests s1 @ [candidate_url self pf] \<rparr>)"
    unfolding find_loop_Cons using nm p body ok scan by simp
  then show ?thesis by (simp add: find_loop_append pre)
qed

lemmas world_eval = world_def demo_def row_def control_entry_def gz_def xz_def start_def
  toy_hash_def base_url_def key_configured_def

lemma bad_gpg_markers: "\<not> goodsig bad_gpg"
  by (simp add: goodsig_def search_line_start_def startswith_def bad_gpg_def newline_def)

lemma good_gpg_markers: "goodsig good_gpg \<and> validsig good_gpg"
  by (simp add: goodsig_def validsig_def search_line_start_def startswith_def good_gpg_def
      newline_def)

subsection \<open>An item without a checksum (claim C10)\<close>

text \<open>
  Claim C10. When an item has no checksum under any of the names \<^verbatim>\<open>SHA512\<close>, \<^verbatim>\<open>sha512\<close>,
  \<^verbatim>\<open>SHA256\<close> and \<^verbatim>\<open>sha256\<close> (a missing field and an empty one count alike),
  \<^verbatim>\<open>_verify_checksum\<close> does not end with its message \<^verbatim>\<open>No checksum found\<close>: building the
  message reads the unbound name \<^verbatim>\<open>package_item\<close>, and the call ends with \<^verbatim>\<open>NameError\<close>.
  It ends so in no other case.
\<close>

theorem missing_checksum_raises_NameError:
  "verify_checksum e data it = Inl (NameError ''package_item'') \<longleftrightarrow>
     \<not> truthy (get it ''SHA512'') \<and> \<not> truthy (get it ''sha512'') \<and>
     \<not> truthy (get it ''SHA256'') \<and> \<not> truthy (get it ''sha256'')"
  by (simp add: verify_checksum_recorded recorded_checksum_def)

theorem missing_checksum_raises_NameError_witness:
  "verify_checksum (world [] good_gpg [] []) ''DEB''
     (Deb822Dict [(''Package'', ''curl''), (''Filename'', ''pool/curl_1_amd64.deb''),
                  (''MD5sum'', ''md5:DEB'')])
   = Inl (NameError ''package_item'')"
  using missing_checksum_raises_NameError [of "world [] good_gpg [] []" "''DEB''"
      "Deb822Dict [(''Package'', ''curl''), (''Filename'', ''pool/curl_1_amd64.deb''),
                  (''MD5sum'', ''md5:DEB'')]"]
  by (simp add: lower_def lower_char_def)

lemmas model_eval =
  locate_and_download_def parse_release_file_def select_section_def release_get_def
  section_truthy_def in_packages_filter_def packages_filter_def compressions_def
  find_package_in_package_files_def find_loop.simps(2) try_fetch_archive_element_def
  fetch_archive_element_def verify_checksum_recorded recorded_checksum_def packages_tail_def
  startswith_def az2_def lower_def lower_char_def replace_slash_def package_url_def
  download_package_def match_deb_def upto_last_deb_def path_join_def falsy_package_def
  print_error_and_exit_def candidate_prefix_def candidate_url_def fetched_body_def
  scanned_without_match_def Let_def newline_def slash_def

subsection \<open>The checksum algorithm (claim C2)\<close>

text \<open>
  Claim C2 speaks of every release file and says that a file with neither checksum
  section ends the download with \<open>NoChecksumSection\<close>. \<^verbatim>\<open>_parse_release_file\<close> takes the
  first paragraph with \<^verbatim>\<open>next\<close> and no default: a release file without a paragraph, such
  as an empty \<^verbatim>\<open>Release\<close> that the server answers with status 200, has no checksum section
  either, and the call ends with \<^verbatim>\<open>StopIteration\<close>.
\<close>

theorem empty_release_file_raises_StopIteration:
  "http_get empty_release ''http://r/dists/d/Release'' = (200, [])
   \<and> parse_release empty_release [] = []
   \<and> download empty_release (demo None) ''curl'' ''/tmp'' start =
     (Inl StopIteration,
      \<lparr> requests = [''http://r/dists/d/InRelease'', ''http://r/dists/d/Release''],
        files = Map.empty \<rparr>)"
  by (simp add: download_def fetch_release_closed check_trust_def locate_and_download_def
      parse_release_file_def empty_release_def world_eval Let_def)

text \<open>
  Claim C2, amended. From the first paragraph of a release file that has one,
  \<^verbatim>\<open>_parse_release_file\<close> takes the rows of one checksum section: those of \<^verbatim>\<open>SHA512\<close> when
  that section has rows, else those of \<^verbatim>\<open>SHA256\<close> when that one has rows; when neither
  has, it ends with \<open>NoChecksumSection\<close>, and so does \<^verbatim>\<open>download\<close>. For an item with a
  SHA-512 digest, \<^verbatim>\<open>_verify_checksum\<close> compares that digest and nothing else: it passes
  when the SHA-512 hash of the data is the digest and ends with \<open>ChecksumMismatch\<close> when it
  is not, whatever the item has for SHA-256.
\<close>

theorem strongest_checksum_only:
  "(parse_release e rd = m # ms \<longrightarrow>
      (section_truthy (release_get m ''SHA512'') \<longrightarrow>
         parse_release_file e self rd =
           Inr (filter (in_packages_filter self) (the (release_get m ''SHA512'')))) \<and>
      (\<not> section_truthy (release_get m ''SHA512'') \<and> section_truthy (release_get m ''SHA256'') \<longrightarrow>
         parse_release_file e self rd =
           Inr (filter (in_packages_filter self) (the (release_get m ''SHA256'')))) \<and>
      (\<not> section_truthy (release_get m ''SHA512'') \<and>
       \<not> section_truthy (release_get m ''SHA256'') \<longrightarrow>
         parse_release_file e self rd = Inl NoChecksumSection \<and>
         (n \<noteq> [] \<and> fetch_release e self s0 = (Inr (rd, sg), s) \<and>
          check_trust e self rd sg = Inr () \<longrightarrow>
            download e self n dest s0 = (Inl NoChecksumSection, s)))) \<and>
   (truthy (get it ''SHA512'') \<or> truthy (get it ''sha512'') \<longrightarrow>
      verify_checksum e data it =
        (if hashlib e ''sha512'' data =
              the (if truthy (get it ''SHA512'') then get it ''SHA512'' else get it ''sha512'')
         then Inr () else Inl ChecksumMismatch))"
  by (auto simp add: parse_release_file_def select_section_def print_error_and_exit_def Let_def
      verify_checksum_recorded recorded_checksum_def download_def locate_and_download_def)

theorem strongest_checksum_only_witness:
  "parse_release_file (world [] good_gpg both_sections []) (demo None) ''REL'' =
     Inr [Deb822Dict [(''sha512'', ''sha512:GZ''), (''size'', ''2''), (''name'', gz)]]
   \<and> parse_release_file (world [] good_gpg [(''MD5Sum'', [row ''md5:GZ'' gz])] []) (demo None)
       ''REL'' = Inl NoChecksumSection
   \<and> verify_checksum (world [] good_gpg [] []) ''DEB''
       (Deb822Dict [(''Package'', ''curl''), (''SHA256'', ''sha256:DEB''),
                    (''SHA512'', ''sha512:other'')]) = Inl ChecksumMismatch"
proof -
  let ?e = "world [] good_gpg both_sections []"
  let ?w = "world [] good_gpg [(''MD5Sum'', [row ''md5:GZ'' gz])] []"
  let ?it = "Deb822Dict [(''Package'', ''curl''), (''SHA256'', ''sha256:DEB''),
                    (''SHA512'', ''sha512:other'')]"
  have p: "parse_release ?e ''REL'' = both_sections # []"
    "parse_release ?w ''REL'' = [(''MD5Sum'', [row ''md5:GZ'' gz])] # []"
    by (simp_all add: world_def)
  have s512: "release_get both_sections ''SHA512'' =
      Some [Deb822Dict [(''sha512'', ''sha512:GZ''), (''size'', ''2''), (''name'', gz)],
            Deb822Dict [(''sha512'', ''sha512:S''), (''size'', ''1''),
                        (''name'', ''main/source/Sources.gz'')]]"
    by (simp add: both_sections_def release_get_def lower_def lower_char_def)
  have none: "release_get [(''MD5Sum'', [row ''md5:GZ'' gz])] ''SHA512'' = None"
    "release_get [(''MD5Sum'', [row ''md5:GZ'' gz])] ''SHA256'' = None"
    by (simp_all add: release_get_def lower_def lower_char_def)
  have flt: "filter (in_packages_filter (demo None))
       [Deb822Dict [(''sha512'', ''sha512:GZ''), (''size'', ''2''), (''name'', gz)],
        Deb822Dict [(''sha512'', ''sha512:S''), (''size'', ''1''),
                    (''name'', ''main/source/Sources.gz'')]]
     = [Deb822Dict [(''sha512'', ''sha512:GZ''), (''size'', ''2''), (''name'', gz)]]"
    by (simp add: in_packages_filter_def packages_filter_def compressions_def demo_def gz_def
        lower_def lower_char_def)
  have it: "get ?it ''SHA512'' = Some ''sha512:other''"
    by (simp add: lower_def lower_char_def)
  have h: "hashlib (world [] good_gpg [] []) ''sha512'' ''DEB'' = ''sha512:DEB''"
    by (simp add: world_def toy_hash_def)
  show ?thesis
    using strongest_checksum_only [where e = ?e and rd = "''REL''" and m = both_sections
        and ms = "[]" and self = "demo None"]
      strongest_checksum_only [where e = ?w and rd = "''REL''"
        and m = "[(''MD5Sum'', [row ''md5:GZ'' gz])]" and ms = "[]" and self = "demo None"]
      strongest_checksum_only [where it = ?it and e = "world [] good_gpg [] []"
        and data = "''DEB''"]
    by (simp add: p s512 none flt it h section_truthy_def del: filter.simps)
qed

subsection \<open>The constructor (claim C9)\<close>

text \<open>
  Claim C9 says that constructing the downloader fails with \<open>InvalidRepositorySpec\<close> when
  the line cannot be taken apart, when there is no architecture, and when there is no
  component. The constructor looks at its arguments only: it never looks at what
  \<^verbatim>\<open>SourceEntry\<close> made of the line. A line without components and a line of one word are
  both accepted.
\<close>

theorem constructor_accepts_line_without_components:
  "PackageDownloader_init words_source_entry
     (Some ''deb http://example.test/debian/ bullseye'') None (Some [''amd64'']) =
     Inr \<lparr> repository = ''deb http://example.test/debian/ bullseye'',
           repository_key = None,
           architectures = [''amd64''],
           source = \<lparr> uri = ''http://example.test/debian'', dist = ''bullseye'', comps = [] \<rparr> \<rparr>
   \<and> PackageDownloader_init words_source_entry (Some ''nonsense'') None (Some [''amd64'']) =
     Inr \<lparr> repository = ''nonsense'',
           repository_key = None,
           architectures = [''amd64''],
           source = \<lparr> uri = [], dist = [], comps = [] \<rparr> \<rparr>"
  by (simp add: PackageDownloader_init_def words_source_entry_def words_def rstrip_slash_def
      slash_def)

text \<open>
  Claim C9, amended. Whatever \<^verbatim>\<open>SourceEntry\<close> does with the line: construction fails with
  \<open>InvalidRepositorySpec\<close> when the repository line is missing or empty and when the list
  of architectures is missing or empty; in every other case it succeeds, with the entry
  that \<^verbatim>\<open>SourceEntry\<close> made of the line, the slashes at the end of its URI removed.
\<close>

theorem constructor_checks_arguments_only:
  "(\<not> truthy repo \<or> archs = None \<or> archs = Some [] \<longrightarrow>
      (\<exists>m. PackageDownloader_init se repo key archs = Inl (InvalidRepositorySpec m))) \<and>
   (truthy repo \<and> archs \<noteq> None \<and> archs \<noteq> Some [] \<longrightarrow>
      PackageDownloader_init se repo key archs =
        Inr \<lparr> repository = the repo,
              repository_key = key,
              architectures = the archs,
              source = (se (the repo)) \<lparr> uri := rstrip_slash (uri (se (the repo))) \<rparr> \<rparr>)"
  by (auto simp add: PackageDownloader_init_def print_error_and_exit_def Let_def)

theorem constructor_checks_arguments_only_witness:
  "PackageDownloader_init words_source_entry (Some ''deb http://example.test/debian bullseye main'')
     None (Some []) = Inl (InvalidRepositorySpec ''Missing (non empty) list 'architectures'.'')
   \<and> PackageDownloader_init words_source_entry (Some []) None (Some [''amd64'']) =
     Inl (InvalidRepositorySpec ''Missing argument 'repository'.'')
   \<and> PackageDownloader_init words_source_entry
       (Some ''deb http://example.test/debian bullseye main'') None (Some [''amd64'']) =
     Inr \<lparr> repository = ''deb http://example.test/debian bullseye main'',
           repository_key = None,
           architectures = [''amd64''],
           source = \<lparr> uri = ''http://example.test/debian'', dist = ''bullseye'',
                      comps = [''main''] \<rparr> \<rparr>"
proof -
  have a: "\<exists>m. PackageDownloader_init words_source_entry
      (Some ''deb http://example.test/debian bullseye main'') None (Some []) =
      Inl (InvalidRepositorySpec m)"
    using constructor_checks_arguments_only [of
        "Some ''deb http://example.test/debian bullseye main''" "Some []" words_source_entry None]
    by simp
  have b: "\<exists>m. PackageDownloader_init words_source_entry (Some []) None (Some [''amd64'']) =
      Inl (InvalidRepositorySpec m)"
    using constructor_checks_arguments_only [of "Some []" "Some [''amd64'']" words_source_entry
        None]
    by simp
  have c: "PackageDownloader_init words_source_entry
       (Some ''deb http://example.test/debian bullseye main'') None (Some [''amd64'']) =
     Inr \<lparr> repository = ''deb http://example.test/debian bullseye main'',
           repository_key = None,
           architectures = [''amd64''],
           source = \<lparr> uri = ''http://example.test/debian'', dist = ''bullseye'',
                      comps = [''main''] \<rparr> \<rparr>"
    using constructor_checks_arguments_only [of
        "Some ''deb http://example.test/debian bullseye main''" "Some [''amd64'']"
        words_source_entry None]
    by (simp add: words_source_entry_def words_def rstrip_slash_def slash_def)
  from a b c show ?thesis
    by (auto simp add: PackageDownloader_init_def print_error_and_exit_def)
qed

lemma match_deb_line_no_slash: "slash \<notin> set b \<Longrightarrow> match_deb_line b = None"
  by (induction b) auto

lemma match_deb_line_keep:
  "match_deb_line cs = Some g \<Longrightarrow> match_deb_line (dir @ cs) = Some g"
  by (induction dir) auto

lemma upto_last_deb_end: "upto_last_deb (stem @ ''deb'') = Some (stem @ ''deb'')"
  by (simp add: upto_last_deb_def startswith_def)

lemma basename_split:
  assumes "slash \<notin> set b"
  shows "basename (dir @ slash # b) = b"
proof -
  have tw: "takeWhile (\<lambda>c. c \<noteq> slash) (rev b) = rev b"
    using assms by (auto simp add: takeWhile_eq_all_conv)
  show ?thesis by (simp add: basename_def takeWhile_tail tw)
qed

lemma ends_in_deb_split:
  assumes "fn = q @ ''deb''" "slash \<in> set fn"
  obtains dir stem where "fn = dir @ slash # stem @ ''deb''" "slash \<notin> set stem"
proof -
  from assms(2) obtain dir b where fn: "fn = dir @ slash # b" and b: "slash \<notin> set b"
    by (auto dest: split_list_last)
  have "rev b @ slash # rev dir = ''bed'' @ rev q"
    using fn assms(1) by (metis rev.simps(2) rev_append rev_rev_ident append.assoc append_Cons append_Nil rev_singleton_conv)
  then obtain r where "rev b = ''bed'' @ r"
    using b
    by (cases "rev b"; cases "tl (rev b)"; cases "tl (tl (rev b))")
      (auto simp add: slash_def)
  then have "b = rev r @ ''deb''" by (metis rev_append rev_rev_ident rev.simps append_Cons append_Nil)
  with fn b that show thesis by auto
qed

lemma match_deb_basename:
  assumes "newline \<notin> set fn" "slash \<in> set fn" "fn = q @ ''deb''"
  shows "match_deb fn = Some (basename fn)"
proof -
  from assms(3,2) obtain dir stem where
    fn: "fn = dir @ slash # stem @ ''deb''" and stem: "slash \<notin> set stem"
    by (rule ends_in_deb_split)
  let ?b = "stem @ ''deb''"
  have nb: "slash \<notin> set ?b" using stem by (simp add: slash_def)
  have "match_deb_line (slash # ?b) = Some ?b"
    using match_deb_line_no_slash [OF nb] upto_last_deb_end [of stem] by simp
  then have "match_deb_line (dir @ slash # ?b) = Some ?b" by (rule match_deb_line_keep)
  moreover have "takeWhile (\<lambda>c. c \<noteq> newline) fn = fn"
    using assms(1) by (auto simp add: takeWhile_eq_all_conv)
  moreover have "basename fn = ?b" unfolding fn using nb by (rule basename_split)
  ultimately show ?thesis by (simp add: match_deb_def fn)
qed

lemma upto_last_deb_rev_Some:
  "upto_last_deb_rev r = Some g \<Longrightarrow> \<exists>a t. r = a @ g \<and> g = ''bed'' @ t"
proof (induction r)
  case Nil
  then show ?case by simp
next
  case (Cons c r)
  show ?case
  proof (cases "startswith (c # r) ''bed''")
    case True
    with Cons.prems have g: "g = c # r" by simp
    from True obtain t where "c # r = ''bed'' @ t"
      by (metis startswith_def append_take_drop_id)
    with g show ?thesis by (intro exI [of _ "[]"] exI [of _ t]) simp
  next
    case False
    with Cons.prems have "upto_last_deb_rev r = Some g" by simp
    from Cons.IH [OF this] obtain a t where "r = a @ g" "g = ''bed'' @ t" by blast
    then show ?thesis by (intro exI [of _ "c # a"] exI [of _ t]) simp
  qed
qed

lemma upto_last_deb_Some:
  assumes "upto_last_deb s = Some g"
  shows "\<exists>t a. s = g @ a \<and> g = t @ ''deb''"
proof -
  from assms obtain g' where g': "upto_last_deb_rev (rev s) = Some g'" "g = rev g'"
    by (auto simp add: upto_last_deb_def)
  from upto_last_deb_rev_Some [OF g'(1)] obtain a t where
    "rev s = a @ g'" "g' = ''bed'' @ t" by blast
  then have "s = rev g' @ rev a" "rev g' = rev t @ ''deb''"
    by (metis rev_append rev_rev_ident, simp)
  with g'(2) show ?thesis by blast
qed

lemma upto_last_deb_rev_occurs: "upto_last_deb_rev (a @ ''bed'' @ b) \<noteq> None"
  by (induction a) (auto simp add: startswith_def)

lemma upto_last_deb_occurs: "upto_last_deb (x @ ''deb'' @ y) \<noteq> None"
  using upto_last_deb_rev_occurs [of "rev y" "rev x"] by (simp add: upto_last_deb_def)

lemma match_deb_line_None:
  "match_deb_line cs = None \<Longrightarrow> cs = a @ slash # b \<Longrightarrow> upto_last_deb b = None"
proof (induction cs arbitrary: a)
  case Nil
  then show ?case by simp
next
  case (Cons c cs)
  from Cons.prems(1) have n: "match_deb_line cs = None"
    and here: "c = slash \<longrightarrow> upto_last_deb cs = None"
    by (auto split: option.splits if_splits)
  show ?case
  proof (cases a)
    case Nil
    with Cons.prems(2) here show ?thesis by simp
  next
    case (Cons x a')
    with Cons.prems(2) have "cs = a' @ slash # b" by simp
    with n show ?thesis by (rule Cons.IH)
  qed
qed

lemma match_deb_line_no_slash_in_group:
  "match_deb_line L = Some nm \<Longrightarrow> slash \<notin> set nm"
proof (induction L)
  case Nil
  then show ?case by simp
next
  case (Cons c cs)
  show ?case
  proof (cases "match_deb_line cs")
    case (Some g)
    with Cons.prems have "g = nm" by simp
    with Some Cons.IH show ?thesis by simp
  next
    case None
    with Cons.prems have up: "upto_last_deb cs = Some nm"
      by (auto split: if_splits)
    from upto_last_deb_Some [OF up] obtain t a where cs: "cs = nm @ a" and nm: "nm = t @ ''deb''"
      by blast
    show ?thesis
    proof
      assume "slash \<in> set nm"
      with nm have "slash \<in> set t" by (simp add: slash_def)
      then obtain u v where t: "t = u @ slash # v" by (auto dest: split_list)
      with cs nm have "cs = u @ slash # (v @ ''deb'' @ a)" by simp
      from match_deb_line_None [OF None this] upto_last_deb_occurs [of v a]
      show False by simp
    qed
  qed
qed

lemma match_deb_no_slash: "match_deb fn = Some nm \<Longrightarrow> slash \<notin> set nm"
  unfolding match_deb_def by (rule match_deb_line_no_slash_in_group)

lemma download_package_closed:
  assumes "get pkg ''Filename'' = Some fn" "match_deb fn = Some nm"
  shows "download_package e self pkg dest s =
     (let url = uri (source self) @ ''/'' @ fn;
          s1 = s \<lparr> requests := requests s @ [url] \<rparr>
      in if get_raises e url then (Inl (RequestException url), s1)
         else if fst (http_get e url) \<noteq> 200 then (Inl (RepositoryUnreachable url), s1)
         else (case verify_checksum e (snd (http_get e url)) pkg of
                 Inl err \<Rightarrow> (Inl err, s1)
               | Inr u \<Rightarrow>
                   (Inr (path_join dest nm),
                    s1 \<lparr> files := (files s1)(path_join dest nm \<mapsto> snd (http_get e url)) \<rparr>)))"
  using assms
  by (simp add: download_package_def fetch_archive_element_def print_error_and_exit_def Let_def
      split: sum.splits)

lemma download_package_Inl_files:
  "download_package e self pkg dest s = (Inl err, s') \<Longrightarrow> files s' = files s"
  by (auto simp add: download_package_def fetch_archive_element_def print_error_and_exit_def
      Let_def split: option.splits sum.splits if_splits prod.splits)

lemma download_package_Inr:
  assumes "download_package e self pkg dest s = (Inr path, s')"
  shows "\<exists>fn nm. get pkg ''Filename'' = Some fn \<and> match_deb fn = Some nm \<and>
      path = path_join dest nm \<and>
      \<not> get_raises e (uri (source self) @ ''/'' @ fn) \<and>
      fst (http_get e (uri (source self) @ ''/'' @ fn)) = 200 \<and>
      verify_checksum e (snd (http_get e (uri (source self) @ ''/'' @ fn))) pkg = Inr () \<and>
      requests s' = requests s @ [uri (source self) @ ''/'' @ fn] \<and>
      files s' = (files s)(path \<mapsto> snd (http_get e (uri (source self) @ ''/'' @ fn)))"
proof -
  from assms obtain fn nm where fn: "get pkg ''Filename'' = Some fn" "match_deb fn = Some nm"
    by (auto simp add: download_package_def split: option.splits)
  from assms show ?thesis
    unfolding download_package_closed [OF fn]
    using fn by (auto simp add: Let_def split: if_splits sum.splits)
qed

lemma find_package_files:
  "find_package_in_package_files e self n pfs s = (r, s') \<Longrightarrow> files s' = files s"
  by (auto simp add: find_package_in_package_files_def split: prod.splits
      dest: find_loop_files)

lemma find_loop_Some_package:
  "find_loop e self n pfs dl s = (Inr (Some sec), dl', s') \<Longrightarrow> get sec ''Package'' = Some n"
proof (induction pfs arbitrary: dl s)
  case Nil
  then show ?case by auto
next
  case (Cons pf pfs)
  from Cons.prems show ?case
    unfolding find_loop_Cons
    by (auto split: option.splits sum.splits if_splits
        dest: Cons.IH scan_paragraphs_Some)
qed

lemma locate_and_download_Inl_files:
  assumes "locate_and_download e self n dest rd s1 = (Inl err, s')"
  shows "files s' = files s1"
proof (cases "parse_release_file e self rd")
  case (Inl a)
  with assms show ?thesis by (simp add: locate_and_download_def)
next
  case (Inr pfs)
  obtain r s2 where fp: "find_package_in_package_files e self n pfs s1 = (r, s2)"
    by (cases "find_package_in_package_files e self n pfs s1") auto
  note f2 = find_package_files [OF fp]
  show ?thesis
  proof (cases r)
    case (Inl a)
    with assms Inr fp f2 show ?thesis by (simp add: locate_and_download_def)
  next
    case found: (Inr requested)
    show ?thesis
    proof (cases "falsy_package requested")
      case True
      with assms Inr fp found f2 show ?thesis
        by (simp add: locate_and_download_def print_error_and_exit_def)
    next
      case False
      with assms Inr fp found
      have "download_package e self (the requested) dest s2 = (Inl err, s')"
        by (simp add: locate_and_download_def)
      from download_package_Inl_files [OF this] f2 show ?thesis by simp
    qed
  qed
qed

lemma download_Inl_files:
  assumes "download e self n dest s = (Inl err, s')"
  shows "files s' = files s"
proof (cases "n = []")
  case True
  with assms show ?thesis by (simp add: download_def)
next
  case False
  obtain r s1 where fr: "fetch_release e self s = (r, s1)"
    by (cases "fetch_release e self s") auto
  note f1 = fetch_release_files [OF fr]
  show ?thesis
  proof (cases r)
    case (Inl a)
    with assms False fr f1 show ?thesis by (simp add: download_def)
  next
    case (Inr rel)
    obtain rd sg where rel: "rel = (rd, sg)" by (cases rel) auto
    from download_stages [OF False fr [unfolded Inr rel]] assms
    have d: "(case check_trust e self rd sg of Inl err \<Rightarrow> (Inl err, s1)
        | Inr u \<Rightarrow> locate_and_download e self n dest rd s1) = (Inl err, s')" by simp
    show ?thesis
    proof (cases "check_trust e self rd sg")
      case (Inl a)
      with d f1 show ?thesis by auto
    next
      case (Inr u)
      with d have l: "locate_and_download e self n dest rd s1 = (Inl err, s')" by simp
      from l f1 show ?thesis by (simp add: locate_and_download_Inl_files)
    qed
  qed
qed

lemma download_Inr:
  assumes "download e self n dest s = (Inr path, s')"
  shows "\<exists>rd sg s1 pfs pkg s2. n \<noteq> [] \<and>
      fetch_release e self s = (Inr (rd, sg), s1) \<and> check_trust e self rd sg = Inr () \<and>
      parse_release_file e self rd = Inr pfs \<and>
      find_package_in_package_files e self n pfs s1 = (Inr (Some pkg), s2) \<and>
      download_package e self pkg dest s2 = (Inr path, s')"
  using assms
  by (auto simp add: download_def locate_and_download_def print_error_and_exit_def
      falsy_package_def split: if_splits sum.splits prod.splits option.splits)

lemmas download_eval = download_def fetch_release_closed check_trust_def

subsection \<open>A payload that fails its checksum (claim C7)\<close>

text \<open>
  Claim C7. A call of \<^verbatim>\<open>download\<close> that ends with an error, whichever it is, leaves the
  files as they were: the only file the method writes outside its temporary directory is
  the payload, and it opens that file after the checksum has been verified. And when the
  call has found the control entry of the package, the entry names a file that the pattern
  of \<^verbatim>\<open>_download_package\<close> matches, the server answers the request for the payload with
  status 200, and the hash of the payload is not the checksum recorded in the entry, the
  call ends with
  \<open>ChecksumMismatch\<close> right after the request for the payload.
\<close>

theorem payload_mismatch_leaves_no_file:
  "(download e self n dest s0 = (Inl err, s') \<longrightarrow> files s' = files s0) \<and>
   (n \<noteq> [] \<and> fetch_release e self s0 = (Inr (rd, sg), s1) \<and>
    check_trust e self rd sg = Inr () \<and> parse_release_file e self rd = Inr pfs \<and>
    find_package_in_package_files e self n pfs s1 = (Inr (Some pkg), s2) \<and>
    get pkg ''Filename'' = Some fn \<and> match_deb fn = Some nm \<and>
    \<not> get_raises e (uri (source self) @ ''/'' @ fn) \<and>
    fst (http_get e (uri (source self) @ ''/'' @ fn)) = 200 \<and>
    recorded_checksum pkg = Some (alg, c) \<and>
    hashlib e alg (snd (http_get e (uri (source self) @ ''/'' @ fn))) \<noteq> c \<longrightarrow>
      download e self n dest s0 =
        (Inl ChecksumMismatch, s2 \<lparr> requests := requests s2 @ [uri (source self) @ ''/'' @ fn] \<rparr>) \<and>
      files s2 = files s0)"
proof (intro conjI impI)
  assume "download e self n dest s0 = (Inl err, s')"
  then show "files s' = files s0" by (rule download_Inl_files)
next
  assume h: "n \<noteq> [] \<and> fetch_release e self s0 = (Inr (rd, sg), s1) \<and>
    check_trust e self rd sg = Inr () \<and> parse_release_file e self rd = Inr pfs \<and>
    find_package_in_package_files e self n pfs s1 = (Inr (Some pkg), s2) \<and>
    get pkg ''Filename'' = Some fn \<and> match_deb fn = Some nm \<and>
    \<not> get_raises e (uri (source self) @ ''/'' @ fn) \<and>
    fst (http_get e (uri (source self) @ ''/'' @ fn)) = 200 \<and>
    recorded_checksum pkg = Some (alg, c) \<and>
    hashlib e alg (snd (http_get e (uri (source self) @ ''/'' @ fn))) \<noteq> c"
  then have fn: "get pkg ''Filename'' = Some fn" "match_deb fn = Some nm" by simp_all
  from fn(1) have len: "item_len pkg \<noteq> 0" by (cases pkg) auto
  have v: "verify_checksum e (snd (http_get e (uri (source self) @ ''/'' @ fn))) pkg =
      Inl ChecksumMismatch"
    using h by (simp add: verify_checksum_recorded)
  have dp: "download_package e self pkg dest s2 =
      (Inl ChecksumMismatch, s2 \<lparr> requests := requests s2 @ [uri (source self) @ ''/'' @ fn] \<rparr>)"
    unfolding download_package_closed [OF fn] using h v by (simp add: Let_def)
  have "locate_and_download e self n dest rd s1 =
      (Inl ChecksumMismatch, s2 \<lparr> requests := requests s2 @ [uri (source self) @ ''/'' @ fn] \<rparr>)"
    using h dp len by (simp add: locate_and_download_def falsy_package_def)
  with h download_stages [of n e self s0 rd sg s1 dest]
  show "download e self n dest s0 =
      (Inl ChecksumMismatch, s2 \<lparr> requests := requests s2 @ [uri (source self) @ ''/'' @ fn] \<rparr>)"
    by simp
  from h have "files s1 = files s0" "files s2 = files s1"
    by (auto dest: fetch_release_files find_package_files)
  then show "files s2 = files s0" by simp
qed

theorem payload_mismatch_leaves_no_file_witness:
  "download (one_index ''pool/curl_1_amd64.deb'' ''EVIL'') (demo None) ''curl'' ''/tmp'' start =
     (Inl ChecksumMismatch,
      \<lparr> requests = [''http://r/dists/d/InRelease'',
                     ''http://r/dists/d/main/binary-amd64/Packages.gz'',
                     ''http://r/pool/curl_1_amd64.deb''],
        files = Map.empty \<rparr>)"
proof -
  let ?e = "one_index ''pool/curl_1_amd64.deb'' ''EVIL''"
  let ?s1 = "\<lparr> requests = [''http://r/dists/d/InRelease''], files = Map.empty \<rparr>"
  let ?s2 = "\<lparr> requests = [''http://r/dists/d/InRelease'',
                            ''http://r/dists/d/main/binary-amd64/Packages.gz''],
               files = Map.empty \<rparr>"
  let ?pkg = "control_entry ''curl'' ''pool/curl_1_amd64.deb'' ''sha256:DEB''"
  have 1: "fetch_release ?e (demo None) start = (Inr (''REL'', None), ?s1)"
    by (simp add: fetch_release_closed one_index_def world_eval)
  have 2: "check_trust ?e (demo None) ''REL'' None = Inr ()"
    by (simp add: check_trust_def world_eval)
  have 3: "parse_release_file ?e (demo None) ''REL'' = Inr [row ''sha256:GZ'' gz]"
    by (simp add: one_index_def world_eval model_eval)
  have 4: "find_package_in_package_files ?e (demo None) ''curl'' [row ''sha256:GZ'' gz] ?s1 =
      (Inr (Some ?pkg), ?s2)"
    by (simp add: one_index_def world_eval model_eval)
  have 5: "get ?pkg ''Filename'' = Some ''pool/curl_1_amd64.deb''"
    by (simp add: world_eval model_eval)
  have 6: "match_deb ''pool/curl_1_amd64.deb'' = Some ''curl_1_amd64.deb''"
    by (simp add: model_eval)
  have 7: "http_get ?e ''http://r/pool/curl_1_amd64.deb'' = (200, ''EVIL'')"
    "\<not> get_raises ?e ''http://r/pool/curl_1_amd64.deb''"
    by (simp_all add: one_index_def world_eval)
  have 8: "recorded_checksum ?pkg = Some (''sha256'', ''sha256:DEB'')"
    by (simp add: world_eval model_eval)
  have 9: "hashlib ?e ''sha256'' ''EVIL'' \<noteq> ''sha256:DEB''"
    by (simp add: one_index_def world_eval)
  have u: "uri (source (demo None)) = ''http://r''" "files start = Map.empty"
    by (simp_all add: world_eval)
  show ?thesis
    using payload_mismatch_leaves_no_file [where e = ?e and self = "demo None" and n = "''curl''"
        and ?s0.0 = start and rd = "''REL''" and sg = None and ?s1.0 = ?s1
        and pfs = "[row ''sha256:GZ'' gz]" and pkg = ?pkg and ?s2.0 = ?s2
        and fn = "''pool/curl_1_amd64.deb''" and nm = "''curl_1_amd64.deb''"
        and alg = "''sha256''" and c = "''sha256:DEB''" and dest = "''/tmp''"]
      1 2 3 4 5 6 8 9
    by (simp add: 7 u)
qed

subsection \<open>Where the payload is written (claim C8)\<close>

text \<open>
  Claim C8 says that a successful call writes the payload to the destination directory
  under the last path component of \<^verbatim>\<open>Filename\<close>. The name is what the pattern
  \<^verbatim>\<open>.*/(.*deb)\<close> captures, and the pattern is not anchored at the end: for the file name
  \<^verbatim>\<open>pool/curl_1_amd64.deb.asc\<close> the call succeeds and writes \<^verbatim>\<open>/tmp/curl_1_amd64.deb\<close>,
  while the last path component is \<^verbatim>\<open>curl_1_amd64.deb.asc\<close>.
\<close>

theorem payload_name_is_not_the_basename:
  "fst (download (one_index ''pool/curl_1_amd64.deb.asc'' ''DEB'') (demo None) ''curl''
          ''/tmp'' start) = Inr ''/tmp/curl_1_amd64.deb''
   \<and> files (snd (download (one_index ''pool/curl_1_amd64.deb.asc'' ''DEB'') (demo None) ''curl''
          ''/tmp'' start)) ''/tmp/curl_1_amd64.deb'' = Some ''DEB''
   \<and> files (snd (download (one_index ''pool/curl_1_amd64.deb.asc'' ''DEB'') (demo None) ''curl''
          ''/tmp'' start)) ''/tmp/curl_1_amd64.deb.asc'' = None
   \<and> path_join ''/tmp'' (basename ''pool/curl_1_amd64.deb.asc'') = ''/tmp/curl_1_amd64.deb.asc''"
  by (simp add: download_eval one_index_def world_eval model_eval basename_def)

text \<open>
  Claim C8, amended. A successful call of \<^verbatim>\<open>download\<close> has found a control entry of the
  wanted package whose \<^verbatim>\<open>Filename\<close> the pattern \<^verbatim>\<open>.*/(.*deb)\<close> matches; the payload, fetched
  with status 200 and verified against the entry, is written to
  \<^verbatim>\<open>os.path.join(dest, name)\<close>, where \<open>name\<close> is the text the pattern captures, and that path
  is returned; no other file changes. The captured text has no slash in it. It is the last
  path component of \<^verbatim>\<open>Filename\<close> whenever \<^verbatim>\<open>Filename\<close> has a slash, ends in \<^verbatim>\<open>deb\<close> and has
  no line feed.
\<close>

theorem payload_written_under_matched_name:
  "download e self n dest s0 = (Inr path, s') \<longrightarrow>
     (\<exists>pkg fn nm.
        get pkg ''Package'' = Some n \<and> get pkg ''Filename'' = Some fn \<and>
        match_deb fn = Some nm \<and> slash \<notin> set nm \<and> path = path_join dest nm \<and>
        \<not> get_raises e (uri (source self) @ ''/'' @ fn) \<and>
        fst (http_get e (uri (source self) @ ''/'' @ fn)) = 200 \<and>
        verify_checksum e (snd (http_get e (uri (source self) @ ''/'' @ fn))) pkg = Inr () \<and>
        files s' = (files s0)(path \<mapsto> snd (http_get e (uri (source self) @ ''/'' @ fn))) \<and>
        (newline \<notin> set fn \<and> slash \<in> set fn \<and> (\<exists>q. fn = q @ ''deb'') \<longrightarrow>
           nm = basename fn))"
proof
  assume "download e self n dest s0 = (Inr path, s')"
  from download_Inr [OF this] obtain rd sg s1 pfs pkg s2 where
    fr: "fetch_release e self s0 = (Inr (rd, sg), s1)" and
    fp: "find_package_in_package_files e self n pfs s1 = (Inr (Some pkg), s2)" and
    dp: "download_package e self pkg dest s2 = (Inr path, s')" by blast
  from fp have pk: "get pkg ''Package'' = Some n"
    by (auto simp add: find_package_in_package_files_def split: prod.splits
        dest: find_loop_Some_package)
  have fs: "files s2 = files s0"
    using fetch_release_files [OF fr] find_package_files [OF fp] by simp
  from download_package_Inr [OF dp] obtain fn nm where
    d: "get pkg ''Filename'' = Some fn" "match_deb fn = Some nm" "path = path_join dest nm"
      "\<not> get_raises e (uri (source self) @ ''/'' @ fn)"
      "fst (http_get e (uri (source self) @ ''/'' @ fn)) = 200"
      "verify_checksum e (snd (http_get e (uri (source self) @ ''/'' @ fn))) pkg = Inr ()"
      "files s' = (files s2)(path \<mapsto> snd (http_get e (uri (source self) @ ''/'' @ fn)))"
    by blast
  have ns: "slash \<notin> set nm" using d(2) by (rule match_deb_no_slash)
  have bn: "nm = basename fn"
    if "newline \<notin> set fn \<and> slash \<in> set fn \<and> (\<exists>q. fn = q @ ''deb'')"
  proof -
    from that obtain q where "newline \<notin> set fn" "slash \<in> set fn" "fn = q @ ''deb''" by blast
    from match_deb_basename [OF this] d(2) show ?thesis by simp
  qed
  from pk d ns bn fs
  show "\<exists>pkg fn nm.
        get pkg ''Package'' = Some n \<and> get pkg ''Filename'' = Some fn \<and>
        match_deb fn = Some nm \<and> slash \<notin> set nm \<and> path = path_join dest nm \<and>
        \<not> get_raises e (uri (source self) @ ''/'' @ fn) \<and>
        fst (http_get e (uri (source self) @ ''/'' @ fn)) = 200 \<and>
        verify_checksum e (snd (http_get e (uri (source self) @ ''/'' @ fn))) pkg = Inr () \<and>
        files s' = (files s0)(path \<mapsto> snd (http_get e (uri (source self) @ ''/'' @ fn))) \<and>
        (newline \<notin> set fn \<and> slash \<in> set fn \<and> (\<exists>q. fn = q @ ''deb'') \<longrightarrow>
           nm = basename fn)"
    by (intro exI [of _ pkg] exI [of _ fn] exI [of _ nm]) simp
qed

theorem payload_written_under_matched_name_witness:
  "download (one_index ''pool/curl_1_amd64.deb'' ''DEB'') (demo None) ''curl'' ''/tmp'' start =
     (Inr ''/tmp/curl_1_amd64.deb'',
      \<lparr> requests = [''http://r/dists/d/InRelease'',
                     ''http://r/dists/d/main/binary-amd64/Packages.gz'',
                     ''http://r/pool/curl_1_amd64.deb''],
        files = [''/tmp/curl_1_amd64.deb'' \<mapsto> ''DEB''] \<rparr>)
   \<and> (\<exists>fn nm. match_deb fn = Some nm \<and> slash \<notin> set nm \<and>
         ''/tmp/curl_1_amd64.deb'' = path_join ''/tmp'' nm)"
proof -
  let ?e = "one_index ''pool/curl_1_amd64.deb'' ''DEB''"
  let ?s = "\<lparr> requests = [''http://r/dists/d/InRelease'',
                     ''http://r/dists/d/main/binary-amd64/Packages.gz'',
                     ''http://r/pool/curl_1_amd64.deb''],
        files = [''/tmp/curl_1_amd64.deb'' \<mapsto> ''DEB''] \<rparr>"
  have run: "download ?e (demo None) ''curl'' ''/tmp'' start = (Inr ''/tmp/curl_1_amd64.deb'', ?s)"
    by (simp add: download_eval one_index_def world_eval model_eval)
  from payload_written_under_matched_name [THEN mp, OF run]
  have "\<exists>fn nm. match_deb fn = Some nm \<and> slash \<notin> set nm \<and>
         ''/tmp/curl_1_amd64.deb'' = path_join ''/tmp'' nm"
    by blast
  with run show ?thesis by blast
qed

lemma packages_filter_set:
  "set (packages_filter self) =
     {c @ ''/binary-'' @ a @ ''/Packages.'' @ z | c a z.
        c \<in> set (comps (source self)) \<and> a \<in> set (architectures self) \<and> z \<in> set compressions}"
  by (auto simp add: packages_filter_def)

lemma match_package_file_base:
  "z \<in> set compressions \<Longrightarrow> match_package_file (''Packages.'' @ z) = Some []"
  by (auto simp add: compressions_def packages_tail_def startswith_def az2_def newline_def)

lemma match_package_file_prefix:
  "newline \<notin> set p \<Longrightarrow> z \<in> set compressions \<Longrightarrow>
   match_package_file (p @ ''Packages.'' @ z) = Some p"
proof (induction p)
  case Nil
  then show ?case using match_package_file_base [of z] by simp
next
  case (Cons c p)
  then show ?case by auto
qed

lemma candidate_prefix_of_triple:
  assumes "newline \<notin> set c" "newline \<notin> set a" "z \<in> set compressions"
    and "get pf ''name'' = Some (c @ ''/binary-'' @ a @ ''/Packages.'' @ z)"
  shows "candidate_prefix pf = Some (replace_slash (c @ ''/binary-'' @ a @ ''/''))"
proof -
  have "newline \<notin> set (c @ ''/binary-'' @ a @ ''/'')"
    using assms(1,2) by (simp add: newline_def)
  from match_package_file_prefix [OF this assms(3)]
  have "match_package_file (c @ ''/binary-'' @ a @ ''/Packages.'' @ z) =
      Some (c @ ''/binary-'' @ a @ ''/'')" by simp
  with assms(4) show ?thesis by (simp add: candidate_prefix_def)
qed

lemma find_loop_fetched_skips:
  assumes "candidate_prefix pf = Some p" "p \<notin> set dl" "scanned_without_match e self n pf"
  shows "find_loop e self n (pf # rest) dl s =
     find_loop e self n (filter (\<lambda>x. candidate_prefix x \<noteq> Some p) rest) (dl @ [p])
       (s \<lparr> requests := requests s @ [candidate_url self pf] \<rparr>)"
proof -
  from assms(1) obtain nm where nm: "get pf ''name'' = Some nm"
    by (auto simp add: candidate_prefix_def split: option.splits)
  from assms(3) obtain body d where
    b: "fetched_body e self pf = Some body" "verify_checksum e body pf = Inr ()"
      "decompress e body = Some d" "scan_paragraphs n (parse_packages e d) = Inr None"
    by (auto simp add: scanned_without_match_def split: option.splits)
  have "find_loop e self n (pf # rest) dl s =
      find_loop e self n rest (dl @ [p]) (s \<lparr> requests := requests s @ [candidate_url self pf] \<rparr>)"
    unfolding find_loop_Cons using nm assms(1,2) b by simp
  also have "\<dots> = find_loop e self n (filter (\<lambda>x. candidate_prefix x \<noteq> Some p) rest) (dl @ [p])
       (s \<lparr> requests := requests s @ [candidate_url self pf] \<rparr>)"
    by (rule find_loop_skip) simp
  finally show ?thesis .
qed

lemma parse_release_file_Inr:
  "parse_release_file e self rd = Inr pfs \<Longrightarrow>
   \<exists>m ms section. parse_release e rd = m # ms \<and> select_section m = Inr section \<and>
     pfs = filter (in_packages_filter self) section"
  by (auto simp add: parse_release_file_def split: list.splits sum.splits)

lemma startswith_iff: "startswith s p \<longleftrightarrow> (\<exists>post. s = p @ post)"
proof
  assume "startswith s p"
  then have "s = p @ drop (length p) s"
    by (metis startswith_def append_take_drop_id)
  then show "\<exists>post. s = p @ post" ..
next
  assume "\<exists>post. s = p @ post"
  then show "startswith s p" by (auto simp add: startswith_def)
qed

lemma after_newline_iff:
  "after_newline pat out \<longleftrightarrow> (\<exists>pre post. out = pre @ newline # pat @ post)"
proof (induction out)
  case Nil
  show ?case by simp
next
  case (Cons c cs)
  show ?case
  proof
    assume "after_newline pat (c # cs)"
    then consider "c = newline" "startswith cs pat" | "after_newline pat cs" by auto
    then show "\<exists>pre post. c # cs = pre @ newline # pat @ post"
    proof cases
      case 1
      then obtain post where "cs = pat @ post" by (auto simp add: startswith_iff)
      with 1 have "c # cs = [] @ newline # pat @ post" by simp
      then show ?thesis by blast
    next
      case 2
      with Cons.IH obtain pre post where "cs = pre @ newline # pat @ post" by blast
      then have "c # cs = (c # pre) @ newline # pat @ post" by simp
      then show ?thesis by blast
    qed
  next
    assume "\<exists>pre post. c # cs = pre @ newline # pat @ post"
    then obtain pre post where eq: "c # cs = pre @ newline # pat @ post" by blast
    show "after_newline pat (c # cs)"
    proof (cases pre)
      case Nil
      with eq have "c = newline" "cs = pat @ post" by simp_all
      then show ?thesis by (simp add: startswith_iff)
    next
      case (Cons x pre')
      with eq have "cs = pre' @ newline # pat @ post" by simp
      with Cons.IH have "after_newline pat cs" by blast
      then show ?thesis by simp
    qed
  qed
qed

lemma search_line_start_iff:
  "search_line_start pat out \<longleftrightarrow> marker_at_line_start pat out"
proof
  assume "search_line_start pat out"
  then consider "startswith out pat" | "after_newline pat out"
    by (auto simp add: search_line_start_def)
  then show "marker_at_line_start pat out"
  proof cases
    case 1
    then obtain post where "out = [] @ pat @ post" by (auto simp add: startswith_iff)
    then show ?thesis unfolding marker_at_line_start_def by blast
  next
    case 2
    then obtain pre post where "out = pre @ newline # pat @ post"
      by (auto simp add: after_newline_iff)
    then have "out = (pre @ [newline]) @ pat @ post" "last (pre @ [newline]) = newline"
      by simp_all
    then show ?thesis unfolding marker_at_line_start_def by blast
  qed
next
  assume "marker_at_line_start pat out"
  then obtain pre post where eq: "out = pre @ pat @ post"
    and pre: "pre = [] \<or> last pre = newline"
    unfolding marker_at_line_start_def by blast
  show "search_line_start pat out"
  proof (cases "pre = []")
    case True
    with eq show ?thesis by (auto simp add: search_line_start_def startswith_iff)
  next
    case False
    with pre have "pre = butlast pre @ [newline]" by (metis append_butlast_last_id)
    with eq have "out = butlast pre @ newline # pat @ post"
      by (metis append.assoc append_Cons append_Nil)
    then have "after_newline pat out" unfolding after_newline_iff by blast
    then show ?thesis by (simp add: search_line_start_def)
  qed
qed

subsection \<open>The signature decides (claim C1)\<close>

text \<open>
  Claim C1. Take a call of \<^verbatim>\<open>download\<close> with a repository key that gets as far as the
  signature check: the package name is not empty, the release file has been fetched, and
  the key helpers have produced a keyring. If the output of gpg has the text
  \<^verbatim>\<open>[GNUPG:] GOODSIG\<close> at the start of a line and the text \<^verbatim>\<open>[GNUPG:] VALIDSIG\<close> at the start
  of a line, the call goes on with the index files and the payload; if one of the two is
  missing, it ends with \<open>SignatureVerificationFailed\<close> in the state it had when the release
  file was fetched: the only requests made are those for \<^verbatim>\<open>InRelease\<close>, or for \<^verbatim>\<open>InRelease\<close>,
  \<^verbatim>\<open>Release\<close> and \<^verbatim>\<open>Release.gpg\<close>, so no index file and no payload has been asked for, and no
  file has been written.
\<close>

theorem signature_gate:
  assumes key: "key_configured self"
    and name: "package_name \<noteq> []"
    and rel: "fetch_release e self s = (Inr (release_data, signature_data), s1)"
    and k1: "fetch_repository_key e (the (repository_key self)) = Some key_data"
    and k2: "build_keyring e key_data = Some keyring"
  shows "(marker_at_line_start ''[GNUPG:] GOODSIG''
            (run_gpg e keyring release_data signature_data) \<and>
          marker_at_line_start ''[GNUPG:] VALIDSIG''
            (run_gpg e keyring release_data signature_data) \<longrightarrow>
            download e self package_name dest s =
              locate_and_download e self package_name dest release_data s1) \<and>
         (\<not> (marker_at_line_start ''[GNUPG:] GOODSIG''
                (run_gpg e keyring release_data signature_data) \<and>
              marker_at_line_start ''[GNUPG:] VALIDSIG''
                (run_gpg e keyring release_data signature_data)) \<longrightarrow>
            download e self package_name dest s = (Inl SignatureVerificationFailed, s1)) \<and>
         (requests s1 = requests s @ [base_url self @ ''/InRelease''] \<or>
          requests s1 = requests s @ [base_url self @ ''/InRelease'', base_url self @ ''/Release'',
                                      base_url self @ ''/Release.gpg'']) \<and>
         files s1 = files s"
proof -
  let ?out = "run_gpg e keyring release_data signature_data"
  have trust: "check_trust e self release_data signature_data =
      (if marker_at_line_start ''[GNUPG:] GOODSIG'' ?out \<and>
          marker_at_line_start ''[GNUPG:] VALIDSIG'' ?out
       then Inr () else Inl SignatureVerificationFailed)"
    using key k1 k2
    by (simp add: check_trust_def verify_signature_def print_error_and_exit_def Let_def
        goodsig_def validsig_def search_line_start_iff)
  have reqs: "requests s1 = requests s @ [base_url self @ ''/InRelease''] \<or>
          requests s1 = requests s @ [base_url self @ ''/InRelease'', base_url self @ ''/Release'',
                                      base_url self @ ''/Release.gpg'']"
    using rel key by (auto simp add: fetch_release_closed Let_def split: if_splits)
  show ?thesis
    using download_stages [OF name rel, of dest] trust reqs fetch_release_files [OF rel]
    by simp
qed

theorem signature_gate_witness:
  "download (signed_repository (''[GNUPG:] VALIDSIG 1'' @ [newline])) (demo (Some ''k''))
     ''curl'' ''/tmp'' start =
     (Inl SignatureVerificationFailed,
      \<lparr> requests = [''http://r/dists/d/InRelease''], files = Map.empty \<rparr>)
   \<and> download (signed_repository (''[GNUPG:] GOODSIG 1 r'' @ [newline])) (demo (Some ''k''))
     ''curl'' ''/tmp'' start =
     (Inl SignatureVerificationFailed,
      \<lparr> requests = [''http://r/dists/d/InRelease''], files = Map.empty \<rparr>)
   \<and> download (signed_repository (''gpg: [GNUPG:] GOODSIG 1 r'' @ [newline] @
                                   ''[GNUPG:] VALIDSIG 1'' @ [newline])) (demo (Some ''k''))
     ''curl'' ''/tmp'' start =
     (Inl SignatureVerificationFailed,
      \<lparr> requests = [''http://r/dists/d/InRelease''], files = Map.empty \<rparr>)
   \<and> fst (download (signed_repository good_gpg) (demo (Some ''k'')) ''curl'' ''/tmp'' start) =
     Inr ''/tmp/curl_1_amd64.deb''"
proof -
  let ?s1 = "\<lparr> requests = [''http://r/dists/d/InRelease''], files = Map.empty \<rparr>"
  have key: "key_configured (demo (Some ''k''))" by (simp add: world_eval)
  have name: "''curl'' \<noteq> []" by simp
  have rel: "fetch_release (signed_repository out) (demo (Some ''k'')) start =
      (Inr (''REL'', None), ?s1)" for out
    by (simp add: fetch_release_closed signed_repository_def world_eval)
  have k1: "fetch_repository_key (signed_repository out)
      (the (repository_key (demo (Some ''k'')))) = Some ''k''" for out
    by (simp add: signed_repository_def world_eval)
  have k2: "build_keyring (signed_repository out) ''k'' = Some ''k''" for out
    by (simp add: signed_repository_def world_eval)
  have out: "run_gpg (signed_repository out) ''k'' ''REL'' None = out" for out
    by (simp add: signed_repository_def world_def)
  have m1: "\<not> marker_at_line_start ''[GNUPG:] GOODSIG'' (''[GNUPG:] VALIDSIG 1'' @ [newline])"
    unfolding search_line_start_iff [symmetric]
    by (simp add: search_line_start_def startswith_def newline_def)
  have m2: "\<not> marker_at_line_start ''[GNUPG:] VALIDSIG'' (''[GNUPG:] GOODSIG 1 r'' @ [newline])"
    unfolding search_line_start_iff [symmetric]
    by (simp add: search_line_start_def startswith_def newline_def)
  have m3: "\<not> marker_at_line_start ''[GNUPG:] GOODSIG''
      (''gpg: [GNUPG:] GOODSIG 1 r'' @ [newline] @ ''[GNUPG:] VALIDSIG 1'' @ [newline])"
    unfolding search_line_start_iff [symmetric]
    by (simp add: search_line_start_def startswith_def newline_def)
  have m4: "marker_at_line_start ''[GNUPG:] GOODSIG'' good_gpg"
    "marker_at_line_start ''[GNUPG:] VALIDSIG'' good_gpg"
    unfolding search_line_start_iff [symmetric]
    by (simp_all add: search_line_start_def startswith_def good_gpg_def newline_def)
  have a: "download (signed_repository (''[GNUPG:] VALIDSIG 1'' @ [newline])) (demo (Some ''k''))
     ''curl'' ''/tmp'' start = (Inl SignatureVerificationFailed, ?s1)"
    using signature_gate [OF key name rel k1 k2, of "''[GNUPG:] VALIDSIG 1'' @ [newline]" "''/tmp''"]
      m1 by (simp only: out) blast
  have b: "download (signed_repository (''[GNUPG:] GOODSIG 1 r'' @ [newline])) (demo (Some ''k''))
     ''curl'' ''/tmp'' start = (Inl SignatureVerificationFailed, ?s1)"
    using signature_gate [OF key name rel k1 k2, of "''[GNUPG:] GOODSIG 1 r'' @ [newline]" "''/tmp''"]
      m2 by (simp only: out) blast
  have c: "download (signed_repository (''gpg: [GNUPG:] GOODSIG 1 r'' @ [newline] @
                                   ''[GNUPG:] VALIDSIG 1'' @ [newline])) (demo (Some ''k''))
     ''curl'' ''/tmp'' start = (Inl SignatureVerificationFailed, ?s1)"
    using signature_gate [OF key name rel k1 k2, of "''gpg: [GNUPG:] GOODSIG 1 r'' @ [newline] @
                                   ''[GNUPG:] VALIDSIG 1'' @ [newline]" "''/tmp''"]
      m3 by (simp only: out) blast
  have dl: "download (signed_repository good_gpg) (demo (Some ''k'')) ''curl'' ''/tmp'' start =
      locate_and_download (signed_repository good_gpg) (demo (Some ''k'')) ''curl'' ''/tmp''
        ''REL'' ?s1"
    using signature_gate [OF key name rel k1 k2, of good_gpg "''/tmp''"] m4
    by (simp only: out)
  have ev: "fst (locate_and_download (signed_repository good_gpg) (demo (Some ''k'')) ''curl''
      ''/tmp'' ''REL'' ?s1) = Inr ''/tmp/curl_1_amd64.deb''"
    by (simp add: signed_repository_def world_eval model_eval)
  have d: "fst (download (signed_repository good_gpg) (demo (Some ''k'')) ''curl'' ''/tmp''
      start) = Inr ''/tmp/curl_1_amd64.deb''"
    by (simp only: dl ev)
  from a b c d show ?thesis by (intro conjI)
qed

subsection \<open>Fetching the release file (claim C6)\<close>

text \<open>
  Claim C6 says that a failed fetch of \<^verbatim>\<open>InRelease\<close> is passed over and that a failed fetch
  of \<^verbatim>\<open>Release\<close> ends the call with \<open>RepositoryUnreachable\<close>. That is so when the server
  answers with a status other than 200. When the network fails, \<^verbatim>\<open>requests.get\<close> raises, and
  nothing in the class catches the exception: with no network for \<^verbatim>\<open>InRelease\<close> the call
  ends there, and \<^verbatim>\<open>Release\<close>, which the server has, is never asked for.
\<close>

theorem network_failure_on_inrelease_is_fatal:
  "fst (http_get inrelease_down ''http://r/dists/d/Release'') = 200
   \<and> download inrelease_down (demo None) ''curl'' ''/tmp'' start =
     (Inl (RequestException ''http://r/dists/d/InRelease''),
      \<lparr> requests = [''http://r/dists/d/InRelease''], files = Map.empty \<rparr>)"
  by (simp add: download_def fetch_release_closed inrelease_down_def world_eval Let_def)

text \<open>
  Claim C6, amended. The first request of \<^verbatim>\<open>download\<close> is the one for \<^verbatim>\<open>InRelease\<close>. When the
  server answers it with status 200 and a body that is not empty, nothing else is
  requested for the release file. When it answers with another status (or an empty body),
  that is passed over and \<^verbatim>\<open>Release\<close> is requested next; a status other than 200 for
  \<^verbatim>\<open>Release\<close> ends the call with \<open>RepositoryUnreachable\<close>. With \<^verbatim>\<open>Release\<close> at hand,
  \<^verbatim>\<open>Release.gpg\<close> is requested exactly when a repository key is configured, and a status
  other than 200 for it ends the call with \<open>RepositoryUnreachable\<close> as well. A request for
  which \<^verbatim>\<open>requests.get\<close> raises ends the call with that exception, the request for
  \<^verbatim>\<open>InRelease\<close> too. None of the three URLs is requested twice.
\<close>

theorem release_fetcher:
  "(let inrelease = base_url self @ ''/InRelease'';
        release = base_url self @ ''/Release'';
        gpg = base_url self @ ''/Release.gpg'';
        r = fst (fetch_release e self s);
        s' = snd (fetch_release e self s);
        new = drop (length (requests s)) (requests s')
    in requests s' = requests s @ new \<and> take 1 new = [inrelease] \<and> distinct new \<and>
       files s' = files s \<and>
       (get_raises e inrelease \<longrightarrow>
          r = Inl (RequestException inrelease) \<and> new = [inrelease]) \<and>
       (\<not> get_raises e inrelease \<and>
        fst (http_get e inrelease) = 200 \<and> snd (http_get e inrelease) \<noteq> [] \<longrightarrow>
          r = Inr (snd (http_get e inrelease), None) \<and> new = [inrelease]) \<and>
       (\<not> get_raises e inrelease \<and>
        \<not> (fst (http_get e inrelease) = 200 \<and> snd (http_get e inrelease) \<noteq> []) \<longrightarrow>
          new = [inrelease, release] @ drop 2 new \<and>
          (get_raises e release \<longrightarrow>
             r = Inl (RequestException release) \<and> new = [inrelease, release]) \<and>
          (\<not> get_raises e release \<and> fst (http_get e release) \<noteq> 200 \<longrightarrow>
             r = Inl (RepositoryUnreachable release) \<and> new = [inrelease, release]) \<and>
          (\<not> get_raises e release \<and> fst (http_get e release) = 200 \<longrightarrow>
             new = (if key_configured self then [inrelease, release, gpg]
                    else [inrelease, release]) \<and>
             (\<not> key_configured self \<longrightarrow> r = Inr (snd (http_get e release), None)) \<and>
             (key_configured self \<and> get_raises e gpg \<longrightarrow> r = Inl (RequestException gpg)) \<and>
             (key_configured self \<and> \<not> get_raises e gpg \<and> fst (http_get e gpg) \<noteq> 200 \<longrightarrow>
                r = Inl (RepositoryUnreachable gpg)) \<and>
             (key_configured self \<and> \<not> get_raises e gpg \<and> fst (http_get e gpg) = 200 \<longrightarrow>
                r = Inr (snd (http_get e release), Some (snd (http_get e gpg)))))) \<and>
       (\<forall>err. package_name \<noteq> [] \<and> r = Inl err \<longrightarrow>
          download e self package_name dest s = (Inl err, s')))"
  by (simp add: fetch_release_closed download_def Let_def)

theorem release_fetcher_witness:
  "fst (download release_only (demo (Some ''k'')) ''curl'' ''/tmp'' start) =
     Inl (RepositoryUnreachable ''http://r/dists/d/Release.gpg'')
   \<and> requests (snd (download release_only (demo (Some ''k'')) ''curl'' ''/tmp'' start)) =
     [''http://r/dists/d/InRelease'', ''http://r/dists/d/Release'', ''http://r/dists/d/Release.gpg'']
   \<and> fst (fetch_release release_only (demo None) start) = Inr (''REL'', None)
   \<and> requests (snd (fetch_release release_only (demo None) start)) =
     [''http://r/dists/d/InRelease'', ''http://r/dists/d/Release'']"
proof -
  have h: "fst (http_get release_only ''http://r/dists/d/InRelease'') = 404"
    "fst (http_get release_only ''http://r/dists/d/Release'') = 200"
    "snd (http_get release_only ''http://r/dists/d/Release'') = ''REL''"
    "fst (http_get release_only ''http://r/dists/d/Release.gpg'') = 404"
    "\<not> get_raises release_only u" for u
    by (simp_all add: release_only_def world_def)
  have b: "base_url (demo k) = ''http://r/dists/d''" for k
    by (simp add: world_eval)
  have k: "key_configured (demo (Some ''k''))" "\<not> key_configured (demo None)"
    by (simp_all add: world_eval)
  have s: "requests start = []" "files start = Map.empty"
    by (simp_all add: start_def)
  show ?thesis
    using release_fetcher [of "demo (Some ''k'')" release_only start "''curl''" "''/tmp''"]
      release_fetcher [of "demo None" release_only start "''curl''" "''/tmp''"]
    by (simp add: Let_def h b k s)
qed

end
